theory Spec2Isabelle
  imports Main
begin

section \<open>Values shared by the server model\<close>

text \<open>
  A JavaScript \<^verbatim>\<open>number\<close> field that a constructor may leave unset. The sequence
  counter of a socket is only ever assigned \<^verbatim>\<open>MIN_SEQUENCE\<close> or incremented, so its
  numeric values are naturals; \<open>Undefined\<close> is the value of a field nothing assigned and
  \<open>NaN\<close> what arithmetic on it gives.
\<close>

datatype jsnumber = Undefined | NaN | Num nat

datatype jserror = TypeError | RangeError | LengthMismatch | TransportError | HttpError

definition MIN_SEQUENCE :: nat where
  "MIN_SEQUENCE = 0"

definition MAX_SEQUENCE :: nat where
  "MAX_SEQUENCE = 255"

text \<open>\<^verbatim>\<open>x > n\<close>: a comparison with \<^verbatim>\<open>undefined\<close> or \<^verbatim>\<open>NaN\<close> is false.\<close>

fun js_gt :: "jsnumber \<Rightarrow> nat \<Rightarrow> bool" where
  "js_gt (Num k) n = (k > n)"
| "js_gt Undefined n = False"
| "js_gt NaN n = False"

text \<open>
  \<^verbatim>\<open>x++\<close>: the old value converted to a number is the result, and the field holds
  that number plus one afterwards; \<^verbatim>\<open>undefined\<close> converts to \<^verbatim>\<open>NaN\<close>.
\<close>

fun js_post_increment :: "jsnumber \<Rightarrow> jsnumber \<times> jsnumber" where
  "js_post_increment (Num k) = (Num k, Num (k + 1))"
| "js_post_increment Undefined = (NaN, NaN)"
| "js_post_increment NaN = (NaN, NaN)"

text \<open>
  The byte \<^verbatim>\<open>Buffer.writeUInt8\<close> stores: it throws only for a number above 255
  (the comparisons it makes are false for \<^verbatim>\<open>NaN\<close>), and a typed array stores
  \<^verbatim>\<open>NaN\<close> as 0.
\<close>

fun writeUInt8 :: "jsnumber \<Rightarrow> jserror + nat" where
  "writeUInt8 (Num k) = (if k > 255 then Inl RangeError else Inr k)"
| "writeUInt8 Undefined = Inr 0"
| "writeUInt8 NaN = Inr 0"

section \<open>Users, sessions and packets\<close>

type_synonym conn_ref = nat
type_synonym room_ref = nat
type_synonym channel_ref = nat

record User =
  userId :: int
  username :: string
  playername :: string

record UserSession =
  user :: User
  currentChannel :: "channel_ref option"
  currentRoom :: "room_ref option"

datatype ChatMessageType = DialogBox | System

text \<open>The message constants of \<^verbatim>\<open>gamestrings\<close>, by name.\<close>

datatype gamestring =
    GAME_LOGIN_BAD_PASSWORD
  | GAME_LOGIN_BAD_USERNAME
  | GAME_LOGIN_INVALID_USERINFO
  | GAME_ROOM_JOIN_FAILED_BAD_PASSWORD
  | GAME_ROOM_JOIN_FAILED_CLOSED
  | GAME_ROOM_JOIN_FAILED_FULL

text \<open>
  Outgoing packets by the static constructor that builds them; the payload layout is
  not part of the model.
\<close>

datatype OutPacket =
    OutChatPacket_systemMessage gamestring ChatMessageType
  | OutUserStartPacket int string string int
  | OutUserInfoPacket_fullUserUpdate User
  | OutInventoryPacket_createInventory "nat list"
  | OutFavoritePacket_setCosmetics
  | OutFavoritePacket_setLoadout
  | OutOptionPacket_setBuyMenu
  | OutHostPacket_itemUse int int
  | OutHostPacket_setInventory int "nat list"
  | OutHostPacket_setLoadout int
  | OutHostPacket_setBuyMenu int

text \<open>What reaches the wire: a packet with its sequence byte, or a raw buffer.\<close>

datatype frame = Frame nat OutPacket | RawFrame "nat list"

fun stamp :: "frame \<Rightarrow> nat" where
  "stamp (Frame b p) = b"
| "stamp (RawFrame bs) = (case bs of _ # b # _ \<Rightarrow> b | _ \<Rightarrow> 0)"

section \<open>ExtendedSocket\<close>

record ExtendedSocket =
  uuid :: "string option"
  session :: "UserSession option"
  seq :: jsnumber
  realInSeq :: nat
  realOutSeq :: nat
  packetDumper :: bool
  destroyed :: bool
  wire :: "frame list"
  dumped :: "(nat \<times> frame) list"

text \<open>
  \<^verbatim>\<open>ExtendedSocket.from\<close>: the session is cleared, both logging counters start at
  \<^verbatim>\<open>MIN_SEQUENCE\<close> and the dumper is stored. Neither \<^verbatim>\<open>seq\<close> nor
  \<^verbatim>\<open>uuid\<close> is assigned.
\<close>

definition ExtendedSocket_from :: "bool \<Rightarrow> ExtendedSocket" where
  "ExtendedSocket_from dumper =
     \<lparr> uuid = None, session = None, seq = Undefined,
       realInSeq = MIN_SEQUENCE, realOutSeq = MIN_SEQUENCE,
       packetDumper = dumper, destroyed = False, wire = [], dumped = [] \<rparr>"

definition resetReq :: "ExtendedSocket \<Rightarrow> ExtendedSocket" where
  "resetReq c = c\<lparr>seq := Num MIN_SEQUENCE\<rparr>"

definition getNextSeq :: "ExtendedSocket \<Rightarrow> jsnumber \<times> ExtendedSocket" where
  "getNextSeq c =
     (let c1 = (if js_gt (seq c) MAX_SEQUENCE then resetReq c else c);
          (old, new) = js_post_increment (seq c1)
      in (old, c1\<lparr>seq := new\<rparr>))"

definition getRealOutSeq :: "ExtendedSocket \<Rightarrow> nat \<times> ExtendedSocket" where
  "getRealOutSeq c = (realOutSeq c, c\<lparr>realOutSeq := realOutSeq c + 1\<rparr>)"

text \<open>
  \<^verbatim>\<open>send\<close>: nothing happens on a destroyed socket. Otherwise the next sequence value
  is written at offset 1 of the packet's data, the frame is dumped when a dumper is
  attached, and it is written to the socket. The result of \<^verbatim>\<open>writeUInt8\<close> is an
  error only for a value above 255. No caller in the sources reads the boolean that
  \<^verbatim>\<open>send\<close> returns; the model returns the socket.
\<close>

definition send :: "OutPacket \<Rightarrow> ExtendedSocket \<Rightarrow> jserror + ExtendedSocket" where
  "send packet c =
     (if destroyed c then Inr c
      else
        let (v, c1) = getNextSeq c in
        case writeUInt8 v of
          Inl e \<Rightarrow> Inl e
        | Inr b \<Rightarrow>
            let data = Frame b packet;
                c2 = (if packetDumper c1
                      then (let (r, c') = getRealOutSeq c1
                            in c'\<lparr>dumped := dumped c' @ [(r, data)]\<rparr>)
                      else c1)
            in Inr (c2\<lparr>wire := wire c2 @ [data]\<rparr>))"

text \<open>
  \<^verbatim>\<open>sendBuffer\<close>: the same for a raw buffer, without the dump; writing at offset 1
  of a buffer shorter than two bytes is out of range.
\<close>

definition sendBuffer :: "nat list \<Rightarrow> ExtendedSocket \<Rightarrow> jserror + ExtendedSocket" where
  "sendBuffer buff c =
     (if destroyed c then Inr c
      else
        let (v, c1) = getNextSeq c in
        case writeUInt8 v of
          Inl e \<Rightarrow> Inl e
        | Inr b \<Rightarrow>
            if length buff < 2 then Inl RangeError
            else Inr (c1\<lparr>wire := wire c1 @ [RawFrame (buff[1 := b])]\<rparr>))"

text \<open>Sending a list of packets one after the other, stopping at the first error.\<close>

fun sendAll :: "OutPacket list \<Rightarrow> ExtendedSocket \<Rightarrow> jserror + ExtendedSocket" where
  "sendAll [] c = Inr c"
| "sendAll (p # ps) c = (case send p c of Inl e \<Rightarrow> Inl e | Inr c' \<Rightarrow> sendAll ps c')"

definition stamps :: "ExtendedSocket \<Rightarrow> nat list" where
  "stamps c = map stamp (wire c)"

section \<open>Rooms and channels\<close>

datatype RoomStatus = Waiting | Countdown | Ingame | Result | Closed

record RoomSettings =
  roomName :: string
  roomPassword :: string
  gameModeId :: int
  mapId :: int
  killLimit :: int
  winLimit :: int
  areBotsEnabled :: bool

text \<open>
  Modelled from the spec: the class \<^verbatim>\<open>Room\<close> (\<^verbatim>\<open>room/room.ts\<close> is not among the
  sources). Its fields follow the data model of the spec: id, host, ordered player slots
  of a fixed capacity, status and the settings record.
\<close>

record Room =
  room_id :: int
  host_userId :: int
  settings :: RoomSettings
  status :: RoomStatus
  occupants :: "int list"
  capacity :: nat

text \<open>
  Modelled from the spec: \<^verbatim>\<open>Room.hasFreeSlots\<close>, missing with the class. A room
  has a free slot while it holds fewer occupants than its capacity.
\<close>

definition hasFreeSlots :: "Room \<Rightarrow> bool" where
  "hasFreeSlots r = (length (occupants r) < capacity r)"

text \<open>
  Modelled from the spec: \<^verbatim>\<open>Room.IsPasswordProtected\<close>, missing with the class.
  An empty password means a public room.
\<close>

definition IsPasswordProtected :: "Room \<Rightarrow> bool" where
  "IsPasswordProtected r = (roomPassword (settings r) \<noteq> [])"

text \<open>
  Modelled from the spec: \<^verbatim>\<open>Room.ComparePassword\<close>, missing with the class.
  Passwords are compared byte for byte.
\<close>

definition ComparePassword :: "Room \<Rightarrow> string \<Rightarrow> bool" where
  "ComparePassword r pwd = (pwd = roomPassword (settings r))"


text \<open>
  Modelled from the spec: \<^verbatim>\<open>UserSession.isInRoom\<close> (\<^verbatim>\<open>user/usersession.ts\<close> is
  not among the sources). A session is in a room when its current room is set.
\<close>

definition isInRoom :: "UserSession \<Rightarrow> bool" where
  "isInRoom sess = (currentRoom sess \<noteq> None)"

record Channel =
  rooms :: "room_ref list"

section \<open>The server state\<close>

text \<open>
  Sockets, rooms and channels are objects: they live in heaps and are named by
  references, so that a change made through one reference is seen through every other.
  \<open>connections\<close> is the array of the \<^verbatim>\<open>ActiveConnections\<close> singleton.
\<close>

record ServerState =
  sockets :: "conn_ref \<Rightarrow> ExtendedSocket"
  connections :: "conn_ref list"
  roomHeap :: "room_ref \<Rightarrow> Room"
  channelHeap :: "channel_ref \<Rightarrow> Channel"

definition then_do :: "jserror + 'a \<Rightarrow> ('a \<Rightarrow> jserror + 'b) \<Rightarrow> jserror + 'b" where
  "then_do m f = (case m of Inl e \<Rightarrow> Inl e | Inr x \<Rightarrow> f x)"

definition conn_send :: "conn_ref \<Rightarrow> OutPacket \<Rightarrow> ServerState \<Rightarrow> jserror + ServerState" where
  "conn_send conn packet s =
     then_do (send packet (sockets s conn)) (\<lambda>c'. Inr (s\<lparr>sockets := (sockets s)(conn := c')\<rparr>))"

definition conn_sendBuffer :: "conn_ref \<Rightarrow> nat list \<Rightarrow> ServerState \<Rightarrow> jserror + ServerState" where
  "conn_sendBuffer conn buff s =
     then_do (sendBuffer buff (sockets s conn)) (\<lambda>c'. Inr (s\<lparr>sockets := (sockets s)(conn := c')\<rparr>))"

text \<open>
  Modelled from the spec: \<^verbatim>\<open>Channel.getRoomById\<close> (\<^verbatim>\<open>channel/channel.ts\<close> is not
  among the sources). A channel holds its rooms keyed by room id; the room with the
  given id is returned, or null.
\<close>

definition getRoomById :: "ServerState \<Rightarrow> channel_ref \<Rightarrow> int \<Rightarrow> room_ref option" where
  "getRoomById s channel rid =
     find (\<lambda>r. room_id (roomHeap s r) = rid) (rooms (channelHeap s channel))"

section \<open>ActiveConnections\<close>


text \<open>
  The loop of \<^verbatim>\<open>FindByOwnerId\<close>: reading \<^verbatim>\<open>conn.session.user.id\<close> of a
  registered socket without a session is a TypeError.
\<close>

fun findOwner :: "(conn_ref \<Rightarrow> ExtendedSocket) \<Rightarrow> conn_ref list \<Rightarrow> int \<Rightarrow> jserror + conn_ref option" where
  "findOwner h [] ownerId = Inr None"
| "findOwner h (conn # rest) ownerId =
     (case session (h conn) of
        None \<Rightarrow> Inl TypeError
      | Some s \<Rightarrow> if userId (user s) = ownerId then Inr (Some conn) else findOwner h rest ownerId)"

definition FindByOwnerId :: "ServerState \<Rightarrow> int \<Rightarrow> jserror + conn_ref option" where
  "FindByOwnerId reg ownerId = findOwner (sockets reg) (connections reg) ownerId"

fun findPlayer :: "(conn_ref \<Rightarrow> ExtendedSocket) \<Rightarrow> conn_ref list \<Rightarrow> string \<Rightarrow> jserror + conn_ref option" where
  "findPlayer h [] targetName = Inr None"
| "findPlayer h (conn # rest) targetName =
     (case session (h conn) of
        None \<Rightarrow> Inl TypeError
      | Some s \<Rightarrow> if playername (user s) = targetName then Inr (Some conn) else findPlayer h rest targetName)"

definition FindByPlayerName :: "ServerState \<Rightarrow> string \<Rightarrow> jserror + conn_ref option" where
  "FindByPlayerName reg targetName = findPlayer (sockets reg) (connections reg) targetName"

definition Add :: "conn_ref \<Rightarrow> ServerState \<Rightarrow> ServerState" where
  "Add conn reg = reg\<lparr>connections := connections reg @ [conn]\<rparr>"

text \<open>\<^verbatim>\<open>Array.prototype.indexOf\<close>: the first index holding the element, or -1.\<close>

fun indexOf_from :: "int \<Rightarrow> 'a list \<Rightarrow> 'a \<Rightarrow> int" where
  "indexOf_from i [] x = -1"
| "indexOf_from i (y # ys) x = (if y = x then i else indexOf_from (i + 1) ys x)"

definition indexOf :: "'a list \<Rightarrow> 'a \<Rightarrow> int" where
  "indexOf xs x = indexOf_from 0 xs x"

text \<open>
  \<^verbatim>\<open>Array.prototype.splice(start, deleteCount)\<close> with no inserted items: a negative
  start counts from the end of the array.
\<close>

definition splice :: "'a list \<Rightarrow> int \<Rightarrow> int \<Rightarrow> 'a list" where
  "splice xs start deleteCount =
     (let len = int (length xs);
          actualStart = (if start < 0 then max (len + start) 0 else min start len);
          actualDeleteCount = min (max deleteCount 0) (len - actualStart)
      in take (nat actualStart) xs @ drop (nat (actualStart + actualDeleteCount)) xs)"

definition Remove :: "conn_ref \<Rightarrow> ServerState \<Rightarrow> ServerState" where
  "Remove conn reg = reg\<lparr>connections := splice (connections reg) (indexOf (connections reg) conn) 1\<rparr>"

section \<open>Collaborators that are not among the sources\<close>

text \<open>
  Methods of \<^verbatim>\<open>Room\<close> and \<^verbatim>\<open>ChannelManager\<close> that the handlers call for their
  effect only, and the two team numbers of \<^verbatim>\<open>RoomTeamNum\<close>. Their code is not
  among the sources; they are parameters of the handlers.
\<close>

record Collaborators =
  Room_addUser :: "room_ref \<Rightarrow> int \<Rightarrow> conn_ref \<Rightarrow> ServerState \<Rightarrow> ServerState"
  Room_sendJoinNewRoom :: "room_ref \<Rightarrow> int \<Rightarrow> ServerState \<Rightarrow> ServerState"
  Room_sendRoomSettingsTo :: "room_ref \<Rightarrow> int \<Rightarrow> ServerState \<Rightarrow> ServerState"
  Room_updateNewPlayerReadyStatus :: "room_ref \<Rightarrow> int \<Rightarrow> ServerState \<Rightarrow> ServerState"
  Room_updateSettings :: "room_ref \<Rightarrow> nat list \<Rightarrow> ServerState \<Rightarrow> ServerState"
  Room_updateUserTeam :: "room_ref \<Rightarrow> int \<Rightarrow> int \<Rightarrow> ServerState \<Rightarrow> ServerState"
  Room_endGame :: "room_ref \<Rightarrow> ServerState \<Rightarrow> ServerState"
  ChannelManager_sendChannelListTo :: "conn_ref \<Rightarrow> ServerState \<Rightarrow> ServerState"
  RoomTeamNum_Terrorist :: int
  RoomTeamNum_CounterTerrorist :: int

section \<open>RoomHandler\<close>

text \<open>\<^verbatim>\<open>SendUserDialogBox\<close>, the same in \<^verbatim>\<open>RoomHandler\<close> and \<^verbatim>\<open>UserManager\<close>.\<close>

definition SendUserDialogBox :: "conn_ref \<Rightarrow> gamestring \<Rightarrow> ServerState \<Rightarrow> jserror + ServerState" where
  "SendUserDialogBox userConn msg s =
     conn_send userConn (OutChatPacket_systemMessage msg DialogBox) s"

text \<open>The fields read from an \<^verbatim>\<open>InRoomJoinRequest\<close>.\<close>

record InRoomJoinRequest =
  joinReq_roomId :: int
  joinReq_roomPassword :: string

text \<open>
  \<^verbatim>\<open>session.currentRoom = room\<close>, on the session object of the connection.
\<close>

definition set_currentRoom :: "conn_ref \<Rightarrow> room_ref option \<Rightarrow> ServerState \<Rightarrow> ServerState" where
  "set_currentRoom conn r s =
     s\<lparr>sockets := (sockets s)(conn := (sockets s conn)
         \<lparr>session := map_option (\<lambda>sess. sess\<lparr>currentRoom := r\<rparr>) (session (sockets s conn))\<rparr>)\<rparr>"

text \<open>
  \<^verbatim>\<open>onJoinRoomRequest\<close>. The dispatcher has checked that the connection has a
  session; without one, reading \<^verbatim>\<open>session.currentChannel\<close> is a TypeError.
\<close>

definition onJoinRoomRequest ::
  "Collaborators \<Rightarrow> InRoomJoinRequest \<Rightarrow> conn_ref \<Rightarrow> ServerState \<Rightarrow> jserror + (bool \<times> ServerState)" where
  "onJoinRoomRequest A joinReq sourceConn s =
     (case session (sockets s sourceConn) of
        None \<Rightarrow> Inl TypeError
      | Some sess \<Rightarrow>
        (case currentChannel sess of
           None \<Rightarrow> Inr (False, s)
         | Some channel \<Rightarrow>
           (case getRoomById s channel (joinReq_roomId joinReq) of
              None \<Rightarrow>
                then_do (SendUserDialogBox sourceConn GAME_ROOM_JOIN_FAILED_CLOSED s)
                  (\<lambda>s'. Inr (False, s'))
            | Some desiredRoom \<Rightarrow>
                if hasFreeSlots (roomHeap s desiredRoom) = False then
                  then_do (SendUserDialogBox sourceConn GAME_ROOM_JOIN_FAILED_FULL s)
                    (\<lambda>s'. Inr (False, s'))
                else if IsPasswordProtected (roomHeap s desiredRoom) = True
                        \<and> ComparePassword (roomHeap s desiredRoom) (joinReq_roomPassword joinReq) = False then
                  then_do (SendUserDialogBox sourceConn GAME_ROOM_JOIN_FAILED_BAD_PASSWORD s)
                    (\<lambda>s'. Inr (False, s'))
                else
                  let uid = userId (user sess);
                      s1 = Room_addUser A desiredRoom uid sourceConn s;
                      s2 = set_currentRoom sourceConn (Some desiredRoom) s1;
                      s3 = Room_sendJoinNewRoom A desiredRoom uid s2;
                      s4 = Room_sendRoomSettingsTo A desiredRoom uid s3;
                      s5 = Room_updateNewPlayerReadyStatus A desiredRoom uid s4
                  in Inr (True, s5))))"


section \<open>UserManager: host packets\<close>

text \<open>
  The five host operations that name another user. Each looks the target up in the
  registry and reads \<^verbatim>\<open>targetConn.session\<close> before any check; on a null
  \<^verbatim>\<open>targetConn\<close> that read is a TypeError.
\<close>

definition onItemUsing :: "int \<Rightarrow> int \<Rightarrow> conn_ref \<Rightarrow> ServerState \<Rightarrow> jserror + (bool \<times> ServerState)" where
  "onItemUsing itemData_userId itemData_itemId userConn s =
     then_do (FindByOwnerId s itemData_userId) (\<lambda>targetConn.
       case targetConn of
         None \<Rightarrow> Inl TypeError
       | Some target \<Rightarrow>
         (case session (sockets s userConn) of
            None \<Rightarrow> Inr (False, s)
          | Some requesterSession \<Rightarrow>
              if isInRoom requesterSession = False then Inr (False, s)
              else
                (case session (sockets s target) of
                   None \<Rightarrow> Inr (False, s)
                 | Some targetSession \<Rightarrow>
                   (case currentRoom requesterSession of
                      None \<Rightarrow> Inr (False, s)
                    | Some room \<Rightarrow>
                        if host_userId (roomHeap s room) \<noteq> userId (user requesterSession)
                        then Inr (False, s)
                        else
                          then_do (conn_send userConn (OutHostPacket_itemUse itemData_userId itemData_itemId) s)
                            (\<lambda>s'. Inr (True, s'))))))"

definition onTeamChangingRequest ::
  "Collaborators \<Rightarrow> int \<Rightarrow> int \<Rightarrow> conn_ref \<Rightarrow> ServerState \<Rightarrow> jserror + (bool \<times> ServerState)" where
  "onTeamChangingRequest A teamData_userId teamData_newTeam userConn s =
     then_do (FindByOwnerId s teamData_userId) (\<lambda>targetConn.
       case targetConn of
         None \<Rightarrow> Inl TypeError
       | Some target \<Rightarrow>
         (case session (sockets s userConn) of
            None \<Rightarrow> Inr (False, s)
          | Some requesterSession \<Rightarrow>
              if isInRoom requesterSession = False then Inr (False, s)
              else
                (case session (sockets s target) of
                   None \<Rightarrow> Inr (False, s)
                 | Some targetSession \<Rightarrow>
                   (case currentRoom requesterSession of
                      None \<Rightarrow> Inr (False, s)
                    | Some room \<Rightarrow>
                        if host_userId (roomHeap s room) \<noteq> userId (user requesterSession)
                        then Inr (False, s)
                        else if teamData_newTeam \<noteq> RoomTeamNum_Terrorist A
                                \<and> teamData_newTeam \<noteq> RoomTeamNum_CounterTerrorist A
                        then Inr (False, s)
                        else Inr (True, Room_updateUserTeam A room
                                          (userId (user targetSession)) teamData_newTeam s)))))"

text \<open>
  \<^verbatim>\<open>sendUserInventoryTo\<close>: the inventory of the host user id is fetched upstream
  (\<open>getInventory\<close> stands for the answers of \<^verbatim>\<open>UserInventory.getInventory\<close>); reading
  \<^verbatim>\<open>inventory.items\<close> of a null answer is a TypeError.
\<close>

definition sendUserInventoryTo ::
  "(int \<Rightarrow> nat list option) \<Rightarrow> int \<Rightarrow> conn_ref \<Rightarrow> int \<Rightarrow> ServerState \<Rightarrow> jserror + ServerState" where
  "sendUserInventoryTo getInventory hostUserId hostConn targetUserId s =
     (case getInventory hostUserId of
        None \<Rightarrow> Inl TypeError
      | Some items \<Rightarrow> conn_send hostConn (OutHostPacket_setInventory targetUserId items) s)"

definition sendUserLoadoutTo :: "conn_ref \<Rightarrow> int \<Rightarrow> ServerState \<Rightarrow> jserror + ServerState" where
  "sendUserLoadoutTo hostConn targetUserId s =
     conn_send hostConn (OutHostPacket_setLoadout targetUserId) s"

definition sendUserBuyMenuTo :: "conn_ref \<Rightarrow> int \<Rightarrow> ServerState \<Rightarrow> jserror + ServerState" where
  "sendUserBuyMenuTo hostConn targetUserId s =
     conn_send hostConn (OutHostPacket_setBuyMenu targetUserId) s"

definition onHostSetUserInventory ::
  "(int \<Rightarrow> nat list option) \<Rightarrow> int \<Rightarrow> conn_ref \<Rightarrow> ServerState \<Rightarrow> jserror + (bool \<times> ServerState)" where
  "onHostSetUserInventory getInventory preloadData_userId userConn s =
     then_do (FindByOwnerId s preloadData_userId) (\<lambda>targetConn.
       case targetConn of
         None \<Rightarrow> Inl TypeError
       | Some target \<Rightarrow>
         (case session (sockets s userConn) of
            None \<Rightarrow> Inr (False, s)
          | Some requesterSession \<Rightarrow>
              if isInRoom requesterSession = False then Inr (False, s)
              else
                (case session (sockets s target) of
                   None \<Rightarrow> Inr (False, s)
                 | Some targetSession \<Rightarrow>
                   (case currentRoom requesterSession of
                      None \<Rightarrow> Inr (False, s)
                    | Some room \<Rightarrow>
                        if host_userId (roomHeap s room) \<noteq> userId (user requesterSession)
                        then Inr (False, s)
                        else
                          then_do (sendUserInventoryTo getInventory (userId (user requesterSession))
                                     userConn (userId (user targetSession)) s)
                            (\<lambda>s'. Inr (True, s'))))))"

definition onHostSetUserLoadout :: "int \<Rightarrow> conn_ref \<Rightarrow> ServerState \<Rightarrow> jserror + (bool \<times> ServerState)" where
  "onHostSetUserLoadout loadoutData_userId sourceConn s =
     then_do (FindByOwnerId s loadoutData_userId) (\<lambda>targetConn.
       case targetConn of
         None \<Rightarrow> Inl TypeError
       | Some target \<Rightarrow>
         (case session (sockets s sourceConn) of
            None \<Rightarrow> Inr (False, s)
          | Some requesterSession \<Rightarrow>
              if isInRoom requesterSession = False then Inr (False, s)
              else
                (case session (sockets s target) of
                   None \<Rightarrow> Inr (False, s)
                 | Some targetSession \<Rightarrow>
                   (case currentRoom requesterSession of
                      None \<Rightarrow> Inr (False, s)
                    | Some room \<Rightarrow>
                        if host_userId (roomHeap s room) \<noteq> userId (user requesterSession)
                        then Inr (False, s)
                        else
                          then_do (sendUserLoadoutTo sourceConn (userId (user targetSession)) s)
                            (\<lambda>s'. Inr (True, s'))))))"

definition onHostSetUserBuyMenu :: "int \<Rightarrow> conn_ref \<Rightarrow> ServerState \<Rightarrow> jserror + (bool \<times> ServerState)" where
  "onHostSetUserBuyMenu buyMenuData_userId sourceConn s =
     then_do (FindByOwnerId s buyMenuData_userId) (\<lambda>targetConn.
       case targetConn of
         None \<Rightarrow> Inl TypeError
       | Some target \<Rightarrow>
         (case session (sockets s sourceConn) of
            None \<Rightarrow> Inr (False, s)
          | Some requesterSession \<Rightarrow>
              if isInRoom requesterSession = False then Inr (False, s)
              else
                (case session (sockets s target) of
                   None \<Rightarrow> Inr (False, s)
                 | Some targetSession \<Rightarrow>
                   (case currentRoom requesterSession of
                      None \<Rightarrow> Inr (False, s)
                    | Some room \<Rightarrow>
                        if host_userId (roomHeap s room) \<noteq> userId (user requesterSession)
                        then Inr (False, s)
                        else
                          then_do (sendUserBuyMenuTo sourceConn (userId (user targetSession)) s)
                            (\<lambda>s'. Inr (True, s'))))))"

text \<open>
  \<^verbatim>\<open>onHostGameEnd\<close>: the branch for a null room builds its log line from
  \<^verbatim>\<open>currentRoom.id\<close>, a TypeError.
\<close>

definition onHostGameEnd :: "Collaborators \<Rightarrow> conn_ref \<Rightarrow> ServerState \<Rightarrow> jserror + (bool \<times> ServerState)" where
  "onHostGameEnd A userConn s =
     (case session (sockets s userConn) of
        None \<Rightarrow> Inr (False, s)
      | Some sess \<Rightarrow>
          if isInRoom sess = False then Inr (False, s)
          else
            (case currentRoom sess of
               None \<Rightarrow> Inl TypeError
             | Some room \<Rightarrow> Inr (True, Room_endGame A room s)))"

text \<open>The host packet after parsing: its type and the fields the handlers read.\<close>

datatype InHostPacket =
    OnGameEnd
  | SetInventory int
  | SetLoadout int
  | SetBuyMenu int
  | TeamChanging int int
  | ItemUsing int int
  | UnknownHostPacket

text \<open>\<^verbatim>\<open>onHostPacket\<close>: a connection without a session is refused before the dispatch.\<close>

definition onHostPacket ::
  "Collaborators \<Rightarrow> (int \<Rightarrow> nat list option) \<Rightarrow> InHostPacket \<Rightarrow> conn_ref \<Rightarrow> ServerState \<Rightarrow> jserror + (bool \<times> ServerState)" where
  "onHostPacket A getInventory hostPacket connection s =
     (case session (sockets s connection) of
        None \<Rightarrow> Inr (False, s)
      | Some sess \<Rightarrow>
        (case hostPacket of
           OnGameEnd \<Rightarrow> onHostGameEnd A connection s
         | SetInventory uid \<Rightarrow> onHostSetUserInventory getInventory uid connection s
         | SetLoadout uid \<Rightarrow> onHostSetUserLoadout uid connection s
         | SetBuyMenu uid \<Rightarrow> onHostSetUserBuyMenu uid connection s
         | TeamChanging uid newTeam \<Rightarrow> onTeamChangingRequest A uid newTeam connection s
         | ItemUsing uid itemId \<Rightarrow> onItemUsing uid itemId connection s
         | UnknownHostPacket \<Rightarrow> Inr (False, s)))"

section \<open>UserManager: login\<close>

definition achievementReplyTest :: "nat list" where
  "achievementReplyTest =
     [85, 18, 33, 0, 96, 3, 0, 0, 64, 0, 0, 0, 3, 222, 7, 0, 0, 2, 0, 0, 0, 216, 7, 0, 0,
      4, 0, 0, 0, 221, 7, 0, 0, 6, 0, 0, 0]"

definition unlockReply :: "nat list" where
  "unlockReply =
     [85, 25, 95, 5, 90, 1, 75, 0, 1, 0, 0, 0, 11, 0, 0, 0, 1, 232, 3, 0, 0, 9, 0, 0,
      0, 12, 0, 0, 0, 1, 220, 5, 0, 0, 10, 0, 0, 0, 13, 0, 0, 0, 1, 232, 3, 0, 0, 24,
      0, 0, 0, 14, 0, 0, 0, 1, 220, 5, 0, 0, 11, 0, 0, 0, 15, 0, 0, 0, 1, 8, 7, 0,
      0, 60, 0, 0, 0, 16, 0, 0, 0, 1, 128, 187, 0, 0, 31, 0, 0, 0, 17, 0, 0, 0, 1, 192,
      93, 0, 0, 17, 0, 0, 0, 18, 0, 0, 0, 1, 8, 7, 0, 0, 28, 0, 0, 0, 19, 0, 0, 0,
      1, 76, 29, 0, 0, 59, 0, 0, 0, 20, 0, 0, 0, 1, 96, 97, 2, 0, 53, 0, 0, 0, 21, 0,
      0, 0, 1, 48, 117, 0, 0, 26, 0, 0, 0, 22, 0, 0, 0, 1, 160, 15, 0, 0, 25, 0, 0, 0,
      23, 0, 0, 0, 1, 152, 58, 0, 0, 63, 0, 0, 0, 24, 0, 0, 0, 1, 224, 147, 4, 0, 20, 0,
      0, 0, 25, 0, 0, 0, 1, 160, 15, 0, 0, 7, 0, 0, 0, 26, 0, 0, 0, 1, 152, 58, 0, 0,
      62, 0, 0, 0, 27, 0, 0, 0, 1, 224, 147, 4, 0, 5, 0, 0, 0, 28, 0, 0, 0, 1, 8, 7,
      0, 0, 44, 0, 0, 0, 29, 0, 0, 0, 1, 48, 117, 0, 0, 16, 0, 0, 0, 30, 0, 0, 0, 1,
      136, 19, 0, 0, 12, 0, 0, 0, 31, 0, 0, 0, 1, 32, 78, 0, 0, 22, 0, 0, 0, 32, 0, 0,
      0, 1, 32, 78, 0, 0, 52, 0, 0, 0, 67, 0, 0, 0, 1, 48, 117, 0, 0, 70, 0, 0, 0, 87,
      0, 0, 0, 1, 32, 161, 7, 0, 71, 0, 0, 0, 88, 0, 0, 0, 1, 32, 161, 7, 0, 77, 0, 0,
      0, 89, 0, 0, 0, 0, 144, 1, 0, 0, 85, 0, 0, 0, 129, 0, 0, 0, 0, 112, 3, 0, 0, 48,
      0, 0, 0, 144, 0, 0, 0, 1, 48, 117, 0, 0, 29, 0, 0, 0, 145, 0, 0, 0, 1, 96, 234, 0,
      0, 32, 0, 0, 0, 146, 0, 0, 0, 1, 72, 232, 1, 0, 47, 0, 0, 0, 147, 0, 0, 0, 1, 64,
      13, 3, 0, 106, 191, 0, 0, 168, 0, 0, 0, 0, 40, 0, 0, 0, 112, 191, 0, 0, 169, 0, 0, 0,
      0, 80, 0, 0, 0, 111, 191, 0, 0, 170, 0, 0, 0, 0, 40, 0, 0, 0, 110, 191, 0, 0, 171, 0,
      0, 0, 0, 80, 0, 0, 0, 105, 191, 0, 0, 172, 0, 0, 0, 0, 40, 0, 0, 0, 114, 191, 0, 0,
      173, 0, 0, 0, 0, 80, 0, 0, 0, 107, 191, 0, 0, 174, 0, 0, 0, 0, 40, 0, 0, 0, 109, 191,
      0, 0, 175, 0, 0, 0, 0, 80, 0, 0, 0, 74, 0, 0, 0, 215, 0, 0, 0, 1, 80, 195, 0, 0,
      75, 0, 0, 0, 216, 0, 0, 0, 1, 0, 119, 1, 0, 78, 0, 0, 0, 232, 0, 0, 0, 1, 112, 17,
      1, 0, 82, 0, 0, 0, 233, 0, 0, 0, 1, 192, 212, 1, 0, 91, 0, 0, 0, 6, 1, 0, 0, 1,
      240, 73, 2, 0, 95, 0, 0, 0, 25, 1, 0, 0, 1, 96, 234, 0, 0, 96, 0, 0, 0, 26, 1, 0,
      0, 1, 192, 212, 1, 0, 100, 0, 0, 0, 56, 1, 0, 0, 1, 240, 73, 2, 0, 104, 0, 0, 0, 92,
      1, 0, 0, 1, 32, 161, 7, 0, 109, 0, 0, 0, 130, 1, 0, 0, 1, 160, 134, 1, 0, 108, 0, 0,
      0, 131, 1, 0, 0, 1, 160, 134, 1, 0, 110, 0, 0, 0, 132, 1, 0, 0, 1, 160, 134, 1, 0, 66,
      0, 0, 0, 250, 1, 0, 0, 1, 48, 117, 0, 0, 67, 0, 0, 0, 251, 1, 0, 0, 1, 80, 195, 0,
      0, 120, 0, 0, 0, 252, 1, 0, 0, 1, 64, 13, 3, 0, 121, 0, 0, 0, 7, 2, 0, 0, 0, 160,
      0, 0, 0, 124, 0, 0, 0, 8, 2, 0, 0, 0, 4, 1, 0, 0, 122, 0, 0, 0, 9, 2, 0, 0,
      0, 224, 1, 0, 0, 123, 0, 0, 0, 10, 2, 0, 0, 0, 68, 2, 0, 0, 125, 0, 0, 0, 88, 2,
      0, 0, 0, 68, 2, 0, 0, 126, 0, 0, 0, 89, 2, 0, 0, 0, 12, 3, 0, 0, 129, 0, 0, 0,
      145, 2, 0, 0, 1, 240, 73, 2, 0, 130, 0, 0, 0, 146, 2, 0, 0, 1, 0, 83, 7, 0, 131, 0,
      0, 0, 147, 2, 0, 0, 1, 96, 91, 3, 0, 133, 0, 0, 0, 148, 2, 0, 0, 0, 64, 1, 0, 0,
      132, 0, 0, 0, 149, 2, 0, 0, 0, 8, 2, 0, 0, 135, 0, 0, 0, 31, 3, 0, 0, 0, 8, 2,
      0, 0, 138, 0, 0, 0, 164, 3, 0, 0, 1, 224, 147, 4, 0, 143, 0, 0, 0, 68, 4, 0, 0, 1,
      128, 169, 3, 0, 144, 0, 0, 0, 69, 4, 0, 0, 1, 64, 126, 5, 0, 145, 0, 0, 0, 70, 4, 0,
      0, 1, 0, 83, 7, 0, 155, 0, 0, 0, 169, 4, 0, 0, 1, 240, 73, 2, 0, 156, 0, 0, 0, 170,
      4, 0, 0, 1, 64, 13, 3, 0, 151, 0, 0, 0, 252, 4, 0, 0, 1, 66, 153, 0, 0, 152, 0, 0,
      0, 253, 4, 0, 0, 1, 134, 41, 2, 0, 153, 0, 0, 0, 254, 4, 0, 0, 1, 140, 237, 2, 0, 16,
      0, 3, 0, 0, 0, 16, 0, 0, 0, 3, 0, 0, 0, 0, 0, 0, 0, 0, 0, 66, 0, 0, 0, 67,
      0, 0, 0, 6, 0, 0, 0, 0, 0, 0, 0, 0, 0, 14, 0, 0, 0, 20, 0, 0, 0, 3, 0, 0,
      0, 0, 0, 0, 0, 0, 0, 15, 0, 0, 0, 10, 0, 0, 0, 4, 0, 0, 0, 0, 0, 0, 0, 0,
      0, 16, 0, 0, 0, 22, 0, 0, 0, 7, 0, 0, 0, 0, 0, 0, 0, 0, 0, 16, 0, 0, 0, 12,
      0, 0, 0, 7, 0, 0, 0, 0, 0, 0, 0, 0, 0, 17, 0, 0, 0, 28, 0, 0, 0, 5, 0, 0,
      0, 0, 0, 0, 0, 0, 0, 17, 0, 0, 0, 53, 0, 0, 0, 1, 0, 0, 0, 0, 0, 0, 0, 0,
      0, 18, 0, 0, 0, 52, 0, 0, 0, 1, 0, 0, 0, 0, 0, 0, 0, 0, 0, 19, 0, 0, 0, 77,
      0, 0, 0, 2, 0, 0, 0, 0, 0, 0, 0, 0, 0, 19, 0, 0, 0, 5, 0, 0, 0, 2, 0, 0,
      0, 0, 0, 0, 0, 0, 0, 20, 0, 0, 0, 7, 0, 0, 0, 8, 0, 0, 0, 0, 0, 0, 0, 0,
      0, 20, 0, 0, 0, 62, 0, 0, 0, 8, 0, 0, 0, 0, 0, 0, 0, 0, 0, 21, 0, 0, 0, 17,
      0, 0, 0, 0, 0, 0, 0, 0, 0, 0, 0, 0, 0, 26, 0, 0, 0, 63, 0, 0, 0, 26, 0, 0,
      0, 0, 0, 0, 0, 0, 0, 26, 0, 0, 0, 25, 0, 0, 0, 26, 0, 0, 0, 0, 0, 0, 0, 0,
      0, 25, 0, 1, 0, 0, 0, 2, 0, 0, 0, 3, 0, 0, 0, 5, 0, 0, 0, 6, 0, 0, 0, 7,
      0, 0, 0, 9, 0, 0, 0, 10, 0, 0, 0, 11, 0, 0, 0, 13, 0, 0, 0, 14, 0, 0, 0, 15,
      0, 0, 0, 16, 0, 0, 0, 17, 0, 0, 0, 18, 0, 0, 0, 19, 0, 0, 0, 20, 0, 0, 0, 21,
      0, 0, 0, 24, 0, 0, 0, 25, 0, 0, 0, 26, 0, 0, 0, 28, 0, 0, 0, 108, 191, 0, 0, 113,
      191, 0, 0, 66, 0, 0, 0, 148, 1, 0, 0]"

definition sendUserInfoToSelf :: "User \<Rightarrow> conn_ref \<Rightarrow> int \<Rightarrow> ServerState \<Rightarrow> jserror + ServerState" where
  "sendUserInfoToSelf u conn holepunchPort s =
     then_do (conn_send conn (OutUserStartPacket (userId u) (username u) (playername u) holepunchPort) s) (\<lambda>s1.
     then_do (conn_sendBuffer conn achievementReplyTest s1) (\<lambda>s2.
     conn_send conn (OutUserInfoPacket_fullUserUpdate u) s2))"

text \<open>
  What the user service answers during a login: the id given by \<^verbatim>\<open>Login\<close>, the
  record given by \<^verbatim>\<open>GetUserById\<close>, and whether each of the four inventory
  fetches gave an object.
\<close>

record LoginAnswers =
  loggedUserId :: int
  fetchedUser :: "User option"
  inventory :: "nat list option"
  cosmetics :: bool
  loadouts :: bool
  buyMenu :: bool

definition sendInventory :: "LoginAnswers \<Rightarrow> conn_ref \<Rightarrow> ServerState \<Rightarrow> jserror + ServerState" where
  "sendInventory answers conn s =
     (case inventory answers of
        None \<Rightarrow> Inr s
      | Some items \<Rightarrow>
          if \<not> cosmetics answers \<or> \<not> loadouts answers \<or> \<not> buyMenu answers then Inr s
          else
            then_do (conn_send conn (OutInventoryPacket_createInventory items) s) (\<lambda>s1.
            then_do (conn_sendBuffer conn unlockReply s1) (\<lambda>s2.
            then_do (conn_send conn OutFavoritePacket_setCosmetics s2) (\<lambda>s3.
            then_do (conn_send conn OutFavoritePacket_setLoadout s3) (\<lambda>s4.
            conn_send conn OutOptionPacket_setBuyMenu s4)))))"

definition attach_session :: "conn_ref \<Rightarrow> UserSession \<Rightarrow> ServerState \<Rightarrow> ServerState" where
  "attach_session conn newSession s =
     s\<lparr>sockets := (sockets s)(conn := (sockets s conn)\<lparr>session := Some newSession\<rparr>)\<rparr>"

definition onLoginPacket ::
  "Collaborators \<Rightarrow> LoginAnswers \<Rightarrow> conn_ref \<Rightarrow> int \<Rightarrow> ServerState \<Rightarrow> jserror + (bool \<times> ServerState)" where
  "onLoginPacket A answers connection holepunchPort s =
     (if loggedUserId answers = 0 then
        then_do (SendUserDialogBox connection GAME_LOGIN_BAD_USERNAME s) (\<lambda>s'. Inr (False, s'))
      else if loggedUserId answers = - 1 then
        then_do (SendUserDialogBox connection GAME_LOGIN_BAD_PASSWORD s) (\<lambda>s'. Inr (False, s'))
      else
        (case fetchedUser answers of
           None \<Rightarrow>
             then_do (SendUserDialogBox connection GAME_LOGIN_INVALID_USERINFO s) (\<lambda>s'. Inr (False, s'))
         | Some u \<Rightarrow>
             let newSession = \<lparr> user = u, currentChannel = None, currentRoom = None \<rparr>;
                 s1 = attach_session connection newSession s;
                 s2 = Add connection s1
             in then_do (sendUserInfoToSelf u connection holepunchPort s2) (\<lambda>s3.
                then_do (sendInventory answers connection s3) (\<lambda>s4.
                Inr (True, ChannelManager_sendChannelListTo A connection s4)))))"

section \<open>The upstream probe\<close>

text \<open>
  Modelled from the spec: \<^verbatim>\<open>UserSvcPing\<close> (the module \<^verbatim>\<open>authorities\<close> is not among
  the sources). A process-wide object that exposes alive and host; \<^verbatim>\<open>checkNow\<close>
  issues a ping to the user service, updates the internal aliveness and returns it;
  \<^verbatim>\<open>isAlive\<close> reads it. The outcome of the ping is the parameter \<open>pingOk\<close>.
\<close>

record UserSvcPing =
  alive :: bool
  host :: string

definition isAlive :: "UserSvcPing \<Rightarrow> bool" where
  "isAlive p = alive p"

definition checkNow :: "bool \<Rightarrow> UserSvcPing \<Rightarrow> bool \<times> UserSvcPing" where
  "checkNow pingOk p = (pingOk, p\<lparr>alive := pingOk\<rparr>)"

text \<open>
  \<^verbatim>\<open>checkServices\<close> of the entry point: two checks of the same probe are started and
  awaited together, then the probe is read twice. \<open>ping1\<close> and \<open>ping2\<close> are the
  outcomes of the two pings in the order in which they complete.
\<close>

definition checkServices :: "bool \<Rightarrow> bool \<Rightarrow> UserSvcPing \<Rightarrow> bool \<times> UserSvcPing" where
  "checkServices ping1 ping2 p =
     (let (r1, p1) = checkNow ping1 p;
          (r2, p2) = checkNow ping2 p1
      in (isAlive p2 \<and> isAlive p2, p2))"

text \<open>
  The single probe check the spec asks for instead: one \<^verbatim>\<open>checkNow\<close> followed by
  one read of \<^verbatim>\<open>isAlive\<close>.
\<close>

definition checkServices_once :: "bool \<Rightarrow> UserSvcPing \<Rightarrow> bool \<times> UserSvcPing" where
  "checkServices_once ping p =
     (let (r, p1) = checkNow ping p
      in (isAlive p1, p1))"

section \<open>The website's UsersService\<close>

text \<open>
  The cache of the \<^verbatim>\<open>lru-cache\<close> package: entries with the time they were stored,
  the most recently used first. An entry is stale when the cache has a maximal age and
  the entry is older. \<^verbatim>\<open>get\<close> drops a stale entry and gives nothing for it, and
  moves a fresh one to the front; \<^verbatim>\<open>set\<close> stores at the front and trims the tail
  down to the capacity.
\<close>

record LRU =
  lru_max :: nat
  lru_maxAge :: nat
  lru_entries :: "(int \<times> User \<times> nat) list"

definition isStale :: "LRU \<Rightarrow> nat \<Rightarrow> int \<times> User \<times> nat \<Rightarrow> bool" where
  "isStale c now e = (lru_maxAge c \<noteq> 0 \<and> now - snd (snd e) > lru_maxAge c)"

definition lru_get :: "nat \<Rightarrow> int \<Rightarrow> LRU \<Rightarrow> User option \<times> LRU" where
  "lru_get now k c =
     (case find (\<lambda>e. fst e = k) (lru_entries c) of
        None \<Rightarrow> (None, c)
      | Some e \<Rightarrow>
          if isStale c now e
          then (None, c\<lparr>lru_entries := filter (\<lambda>e'. fst e' \<noteq> k) (lru_entries c)\<rparr>)
          else (Some (fst (snd e)), c\<lparr>lru_entries := e # filter (\<lambda>e'. fst e' \<noteq> k) (lru_entries c)\<rparr>))"

definition lru_set :: "nat \<Rightarrow> int \<Rightarrow> User \<Rightarrow> LRU \<Rightarrow> LRU" where
  "lru_set now k v c =
     c\<lparr>lru_entries := take (lru_max c) ((k, v, now) # filter (\<lambda>e'. fst e' \<noteq> k) (lru_entries c))\<rparr>"

text \<open>\<^verbatim>\<open>new LRU<number, User>({ max: 100, maxAge: 1000 * 15 })\<close>\<close>

definition userCache_new :: LRU where
  "userCache_new = \<lparr> lru_max = 100, lru_maxAge = 1000 * 15, lru_entries = [] \<rparr>"

text \<open>
  The module state: the cache, the probe, and the requests \<^verbatim>\<open>GET /users/{id}\<close>
  issued so far.
\<close>

record WebState =
  userCache :: LRU
  probe :: UserSvcPing
  requests :: "int list"

text \<open>
  What the surroundings give one call of \<^verbatim>\<open>get\<close>: the time of the call, the answer
  of the user service should it be asked (a status with a body, or a refused connection),
  the time of that answer, and the outcome of the ping should the probe be checked.
  The request library rejects on a refused connection and on every status outside
  200..299, so these run the \<^verbatim>\<open>catch\<close> block: the probe is checked and the error
  is thrown again.
\<close>

datatype HttpAnswer = Response nat "User option" | Refused

record GetSurroundings =
  now :: nat
  answer :: HttpAnswer
  answeredAt :: nat
  pingOk :: bool

definition UsersService_get :: "GetSurroundings \<Rightarrow> int \<Rightarrow> WebState \<Rightarrow> (jserror + User option) \<times> WebState" where
  "UsersService_get env uid s =
     (let (cachedUser, cache1) = lru_get (now env) uid (userCache s);
          s1 = s\<lparr>userCache := cache1\<rparr>
      in case cachedUser of
           Some u \<Rightarrow> (Inr (Some u), s1)
         | None \<Rightarrow>
             if isAlive (probe s1) = False then (Inr None, s1)
             else
               let s2 = s1\<lparr>requests := requests s1 @ [uid]\<rparr>;
                   caught = s2\<lparr>probe := snd (checkNow (pingOk env) (probe s2))\<rparr>
               in case answer env of
                    Refused \<Rightarrow> (Inl TransportError, caught)
                  | Response res_status body \<Rightarrow>
                      if res_status < 200 \<or> 300 \<le> res_status then (Inl HttpError, caught)
                      else if res_status \<noteq> 200 then (Inr None, s2)
                      else
                        (case body of
                           None \<Rightarrow> (Inl TypeError, caught)
                         | Some result \<Rightarrow>
                             (Inr (Some result),
                              s2\<lparr>userCache := lru_set (answeredAt env) (userId result) result (userCache s2)\<rparr>)))"

text \<open>Successive calls of \<^verbatim>\<open>get\<close> for the same user id, each with its surroundings.\<close>

fun get_repeatedly :: "GetSurroundings list \<Rightarrow> int \<Rightarrow> WebState \<Rightarrow> (jserror + User option) list \<times> WebState" where
  "get_repeatedly [] uid s = ([], s)"
| "get_repeatedly (env # envs) uid s =
     (let (r, s1) = UsersService_get env uid s;
          (rs, s2) = get_repeatedly envs uid s1
      in (r # rs, s2))"

section \<open>PacketString\<close>

text \<open>
  A JavaScript string is a sequence of UTF-16 code units, each below 65536. The encoder
  (\<^verbatim>\<open>TextEncoder\<close>, and \<^verbatim>\<open>Buffer.write\<close> alike) reads it as Unicode scalar values:
  a high surrogate followed by a low one is one supplementary character, and a
  surrogate on its own is replaced by U+FFFD (65533).
\<close>

type_synonym jsstring = "nat list"

definition is_high_surrogate :: "nat \<Rightarrow> bool" where
  "is_high_surrogate u = (55296 \<le> u \<and> u \<le> 56319)"

definition is_low_surrogate :: "nat \<Rightarrow> bool" where
  "is_low_surrogate u = (56320 \<le> u \<and> u \<le> 57343)"

fun scalar_values :: "jsstring \<Rightarrow> nat list" where
  "scalar_values [] = []"
| "scalar_values [u] = (if is_high_surrogate u \<or> is_low_surrogate u then [65533] else [u])"
| "scalar_values (u # l # us) =
     (if is_high_surrogate u then
        (if is_low_surrogate l
         then (65536 + (u - 55296) * 1024 + (l - 56320)) # scalar_values us
         else 65533 # scalar_values (l # us))
      else if is_low_surrogate u then 65533 # scalar_values (l # us)
      else u # scalar_values (l # us))"

definition utf8_of_scalar :: "nat \<Rightarrow> nat list" where
  "utf8_of_scalar c =
     (if c < 128 then [c]
      else if c < 2048 then [192 + c div 64, 128 + c mod 64]
      else if c < 65536 then [224 + c div 4096, 128 + (c div 64) mod 64, 128 + c mod 64]
      else [240 + c div 262144, 128 + (c div 4096) mod 64, 128 + (c div 64) mod 64, 128 + c mod 64])"

definition TextEncoder_encode :: "jsstring \<Rightarrow> nat list" where
  "TextEncoder_encode s = concat (map utf8_of_scalar (scalar_values s))"

text \<open>
  \<^verbatim>\<open>Buffer.toString('utf8')\<close>: the decoder reads one to four bytes per character.
  The second byte of a three or four byte character has a narrower range after the
  lead bytes 224, 237, 240 and 244 (no overlong forms, no surrogates, nothing above
  1114111). An ill-formed sequence gives U+FFFD and decoding resumes at the byte that
  did not fit.
\<close>

definition is_continuation :: "nat \<Rightarrow> bool" where
  "is_continuation b = (128 \<le> b \<and> b \<le> 191)"

definition second_byte_ok :: "nat \<Rightarrow> nat \<Rightarrow> bool" where
  "second_byte_ok b0 b1 =
     ((if b0 = 224 then 160 else if b0 = 240 then 144 else 128) \<le> b1
      \<and> b1 \<le> (if b0 = 237 then 159 else if b0 = 244 then 143 else 191))"

fun utf8_decode :: "nat list \<Rightarrow> nat list" where
  "utf8_decode [] = []"
| "utf8_decode (b0 # bs) =
     (if b0 < 128 then b0 # utf8_decode bs
      else if 194 \<le> b0 \<and> b0 \<le> 223 then
        (case bs of
           [] \<Rightarrow> [65533]
         | b1 # bs1 \<Rightarrow>
             if is_continuation b1
             then ((b0 - 192) * 64 + (b1 - 128)) # utf8_decode bs1
             else 65533 # utf8_decode bs)
      else if 224 \<le> b0 \<and> b0 \<le> 239 then
        (case bs of
           [] \<Rightarrow> [65533]
         | b1 # bs1 \<Rightarrow>
             if second_byte_ok b0 b1 then
               (case bs1 of
                  [] \<Rightarrow> [65533]
                | b2 # bs2 \<Rightarrow>
                    if is_continuation b2
                    then ((b0 - 224) * 4096 + (b1 - 128) * 64 + (b2 - 128)) # utf8_decode bs2
                    else 65533 # utf8_decode bs1)
             else 65533 # utf8_decode bs)
      else if 240 \<le> b0 \<and> b0 \<le> 244 then
        (case bs of
           [] \<Rightarrow> [65533]
         | b1 # bs1 \<Rightarrow>
             if second_byte_ok b0 b1 then
               (case bs1 of
                  [] \<Rightarrow> [65533]
                | b2 # bs2 \<Rightarrow>
                    if is_continuation b2 then
                      (case bs2 of
                         [] \<Rightarrow> [65533]
                       | b3 # bs3 \<Rightarrow>
                           if is_continuation b3
                           then ((b0 - 240) * 262144 + (b1 - 128) * 4096 + (b2 - 128) * 64 + (b3 - 128))
                                  # utf8_decode bs3
                           else 65533 # utf8_decode bs2)
                    else 65533 # utf8_decode bs1)
             else 65533 # utf8_decode bs)
      else 65533 # utf8_decode bs)"

definition utf16_of_scalar :: "nat \<Rightarrow> nat list" where
  "utf16_of_scalar c =
     (if c < 65536 then [c]
      else [55296 + (c - 65536) div 1024, 56320 + (c - 65536) mod 1024])"

definition Buffer_toString :: "nat list \<Rightarrow> jsstring" where
  "Buffer_toString bytes = concat (map utf16_of_scalar (utf8_decode bytes))"

text \<open>
  \<^verbatim>\<open>Buffer.write(string, offset, length, 'utf8')\<close>: an offset or a length beyond the
  buffer is out of range; otherwise the bytes of as many whole characters as fit in
  \<open>length\<close> bytes, and in the rest of the buffer, are written at the offset.
\<close>

fun utf8_fitting :: "nat \<Rightarrow> nat list \<Rightarrow> nat list" where
  "utf8_fitting n [] = []"
| "utf8_fitting n (c # cs) =
     (let bs = utf8_of_scalar c
      in if length bs \<le> n then bs @ utf8_fitting (n - length bs) cs else [])"

definition Buffer_write :: "nat list \<Rightarrow> jsstring \<Rightarrow> nat \<Rightarrow> nat \<Rightarrow> jserror + nat list" where
  "Buffer_write buf s offset len =
     (if offset > length buf \<or> len > length buf then Inl RangeError
      else
        let remaining = length buf - offset;
            bytes = utf8_fitting (min len remaining) (scalar_values s)
        in Inr (take offset buf @ bytes @ drop (offset + length bytes) buf))"

record PacketString =
  str :: jsstring
  actualStrLen :: nat
  totalLen :: nat

text \<open>
  The constructor: the length check is made only for a raw length other than 0.
\<close>

definition new_PacketString :: "jsstring \<Rightarrow> nat \<Rightarrow> jserror + PacketString" where
  "new_PacketString s rawLength =
     (let expectedLen = length (TextEncoder_encode s)
      in if rawLength \<noteq> 0 \<and> expectedLen \<noteq> rawLength then Inl LengthMismatch
         else Inr \<lparr> str = s, actualStrLen = expectedLen, totalLen = expectedLen + 1 \<rparr>)"

text \<open>
  \<^verbatim>\<open>PacketString.from\<close>: reading the length byte of an empty buffer is out of range;
  the slice stops at the end of the buffer.
\<close>

definition PacketString_from :: "nat list \<Rightarrow> jserror + PacketString" where
  "PacketString_from data =
     (case data of
        [] \<Rightarrow> Inl RangeError
      | len # rest \<Rightarrow> new_PacketString (Buffer_toString (take len (drop 1 data))) len)"

text \<open>
  \<^verbatim>\<open>toBuffer\<close>: a zeroed buffer of \<^verbatim>\<open>totalLen\<close> bytes; the first byte takes the
  length, kept to eight bits; the string is written after it unless it is empty.
\<close>

definition toBuffer :: "PacketString \<Rightarrow> jserror + nat list" where
  "toBuffer p =
     (let newBuffer = replicate (totalLen p) 0;
          newBuffer = newBuffer[0 := actualStrLen p mod 256]
      in if str p \<noteq> [] then Buffer_write newBuffer (str p) 1 (actualStrLen p)
         else Inr newBuffer)"

text \<open>
  A string is well formed when every code unit is below 65536 and every surrogate is
  half of a pair: these are the strings that have a UTF-8 encoding of their own.
\<close>

fun well_formed :: "jsstring \<Rightarrow> bool" where
  "well_formed [] = True"
| "well_formed [u] = (u < 65536 \<and> \<not> is_high_surrogate u \<and> \<not> is_low_surrogate u)"
| "well_formed (u # l # us) =
     (if is_high_surrogate u then is_low_surrogate l \<and> well_formed us
      else u < 65536 \<and> \<not> is_low_surrogate u \<and> well_formed (l # us))"

section \<open>The scenario of the spec, as a concrete state\<close>

text \<open>
  Alice (user 42) is logged in on connection 0 and hosts room 1, whose password is
  "secret"; Bob is logged in on connection 1 and sits in the lobby of the same channel.
  Both sockets have had their sequence reset. No other connection is registered.
\<close>

definition alice :: User where
  "alice = \<lparr> userId = 42, username = ''alice'', playername = ''Alice'' \<rparr>"

definition bob :: User where
  "bob = \<lparr> userId = 43, username = ''bob'', playername = ''Bob'' \<rparr>"

definition room1 :: Room where
  "room1 = \<lparr> room_id = 1, host_userId = 42,
             settings = \<lparr> roomName = ''r1'', roomPassword = ''secret'', gameModeId = 1,
                          mapId = 5, killLimit = 30, winLimit = 3, areBotsEnabled = False \<rparr>,
             status = Waiting, occupants = [42], capacity = 16 \<rparr>"

definition live_socket :: "UserSession option \<Rightarrow> ExtendedSocket" where
  "live_socket sess = (resetReq (ExtendedSocket_from False))\<lparr>session := sess\<rparr>"

definition lobby :: ServerState where
  "lobby =
     \<lparr> sockets = (\<lambda>c. if c = 0 then live_socket (Some \<lparr> user = alice, currentChannel = Some 0, currentRoom = Some 0 \<rparr>)
                     else if c = 1 then live_socket (Some \<lparr> user = bob, currentChannel = Some 0, currentRoom = None \<rparr>)
                     else ExtendedSocket_from False),
       connections = [0, 1],
       roomHeap = (\<lambda>r. room1),
       channelHeap = (\<lambda>ch. \<lparr> rooms = [0] \<rparr>) \<rparr>"

text \<open>Collaborators that do nothing, for evaluating the handlers on the scenario.\<close>

definition idle :: Collaborators where
  "idle =
     \<lparr> Room_addUser = (\<lambda>r uid conn s. s),
       Room_sendJoinNewRoom = (\<lambda>r uid s. s),
       Room_sendRoomSettingsTo = (\<lambda>r uid s. s),
       Room_updateNewPlayerReadyStatus = (\<lambda>r uid s. s),
       Room_updateSettings = (\<lambda>r req s. s),
       Room_updateUserTeam = (\<lambda>r uid team s. s),
       Room_endGame = (\<lambda>r s. s),
       ChannelManager_sendChannelListTo = (\<lambda>conn s. s),
       RoomTeamNum_Terrorist = 1,
       RoomTeamNum_CounterTerrorist = 2 \<rparr>"

text \<open>The answers of the user service for a login that fails.\<close>

definition login_answers :: "int \<Rightarrow> User option \<Rightarrow> LoginAnswers" where
  "login_answers uid u =
     \<lparr> loggedUserId = uid, fetchedUser = u, inventory = None,
       cosmetics = False, loadouts = False, buyMenu = False \<rparr>"



text \<open>
  The website while the user service is down: the probe is not alive, Alice's record
  was cached at time 0, and user 99 was never fetched. Had it been asked, the user
  service would answer the request of time 1000 with Alice's record.
\<close>

definition web_down :: WebState where
  "web_down =
     \<lparr> userCache = lru_set 0 42 alice userCache_new,
       probe = \<lparr> alive = False, host = ''userservice'' \<rparr>,
       requests = [] \<rparr>"

definition at_1000 :: GetSurroundings where
  "at_1000 = \<lparr> now = 1000, answer = Response 200 (Some alice), answeredAt = 1005, pingOk = True \<rparr>"

section \<open>Sequence bytes of sent frames\<close>

lemma getNextSeq_fresh:
  "seq c = Undefined \<or> seq c = NaN \<Longrightarrow> getNextSeq c = (NaN, c\<lparr>seq := NaN\<rparr>)"
  by (auto simp: getNextSeq_def)

lemma send_unset_seq:
  assumes "seq c = Undefined \<or> seq c = NaN" and "\<not> destroyed c"
  shows "\<exists>c'. send p c = Inr c' \<and> seq c' = NaN \<and> \<not> destroyed c' \<and> stamps c' = stamps c @ [0]"
  using assms by (auto simp: send_def getNextSeq_fresh getRealOutSeq_def stamps_def Let_def)

lemma sendAll_unset_seq:
  assumes "seq c = Undefined \<or> seq c = NaN" and "\<not> destroyed c"
  shows "\<exists>c'. sendAll ps c = Inr c' \<and> stamps c' = stamps c @ replicate (length ps) 0"
  using assms
proof (induction ps arbitrary: c)
  case Nil
  then show ?case by simp
next
  case (Cons p ps)
  from send_unset_seq [OF Cons.prems, of p] obtain c1 where
    c1: "send p c = Inr c1" "seq c1 = NaN" "\<not> destroyed c1" "stamps c1 = stamps c @ [0]"
    by blast
  from Cons.IH [of c1] c1 obtain c' where
    "sendAll ps c1 = Inr c'" "stamps c' = stamps c1 @ replicate (length ps) 0"
    by blast
  with c1 show ?case by (simp add: replicate_app_Cons_same)
qed

text \<open>
  C1. A connection made by \<^verbatim>\<open>ExtendedSocket.from\<close> has no sequence counter: every
  frame it sends is stamped 0, whatever the number of frames. The series 0, 1, 2, ...
  of the claim is not what the code sends.
\<close>

theorem fresh_connection_stamps_all_zero:
  "\<exists>c'. sendAll ps (ExtendedSocket_from dumper) = Inr c' \<and> stamps c' = replicate (length ps) 0"
proof -
  have "seq (ExtendedSocket_from dumper) = Undefined \<or> seq (ExtendedSocket_from dumper) = NaN"
    and "\<not> destroyed (ExtendedSocket_from dumper)"
    and "stamps (ExtendedSocket_from dumper) = []"
    by (simp_all add: ExtendedSocket_from_def stamps_def)
  with sendAll_unset_seq [of "ExtendedSocket_from dumper" ps] show ?thesis by simp
qed

lemma send_numeric_seq:
  assumes "seq c = Num s" and "s \<le> 256" and "\<not> destroyed c"
  shows "\<exists>c' s'. send p c = Inr c' \<and> seq c' = Num s' \<and> s' \<le> 256 \<and> s' mod 256 = (s + 1) mod 256
            \<and> \<not> destroyed c' \<and> stamps c' = stamps c @ [s mod 256]"
  using assms
  by (cases "s = 256")
     (auto simp: send_def getNextSeq_def resetReq_def getRealOutSeq_def stamps_def Let_def
        MAX_SEQUENCE_def MIN_SEQUENCE_def mod_Suc)

text \<open>
  Once the counter holds a number (after \<^verbatim>\<open>resetReq\<close>), the stamps of successive
  frames are the contiguous series modulo 256.
\<close>

lemma sendAll_numeric_seq:
  assumes "seq c = Num s" and "s \<le> 256" and "\<not> destroyed c"
  shows "\<exists>c'. sendAll ps c = Inr c' \<and>
           stamps c' = stamps c @ map (\<lambda>k. (s + k) mod 256) [0..<length ps]"
  using assms
proof (induction ps arbitrary: c s)
  case Nil
  then show ?case by simp
next
  case (Cons p ps)
  from send_numeric_seq [OF Cons.prems, of p] obtain c1 s1 where
    c1: "send p c = Inr c1" "seq c1 = Num s1" "s1 \<le> 256" "s1 mod 256 = (s + 1) mod 256"
        "\<not> destroyed c1" "stamps c1 = stamps c @ [s mod 256]"
    by blast
  from Cons.IH [OF c1(2,3,5)] obtain c' where
    c': "sendAll ps c1 = Inr c'"
        "stamps c' = stamps c1 @ map (\<lambda>k. (s1 + k) mod 256) [0..<length ps]"
    by blast
  have shift: "(s1 + k) mod 256 = (s + Suc k) mod 256" for k
    using c1(4) by (metis add_Suc_right add_Suc mod_add_left_eq Suc_eq_plus1)
  have "map (\<lambda>k. (s + k) mod 256) [0..<length (p # ps)]
        = (s mod 256) # map (\<lambda>k. (s + Suc k) mod 256) [0..<length ps]"
    by (simp add: upt_conv_Cons map_Suc_upt [symmetric] del: upt_Suc)
  with c1 c' shift show ?case by simp
qed

section \<open>Sending never fails\<close>

lemma getNextSeq_writable:
  "\<exists>b. writeUInt8 (fst (getNextSeq c)) = Inr b"
  by (cases "seq c") (auto simp: getNextSeq_def resetReq_def MAX_SEQUENCE_def MIN_SEQUENCE_def Let_def)

lemma send_effect:
  "\<exists>c'. send p c = Inr c' \<and> session c' = session c \<and> destroyed c' = destroyed c
        \<and> (if destroyed c then c' = c else (\<exists>b. wire c' = wire c @ [Frame b p]))"
proof -
  obtain b where "writeUInt8 (fst (getNextSeq c)) = Inr b"
    using getNextSeq_writable by blast
  then show ?thesis
    by (auto simp: send_def getNextSeq_def getRealOutSeq_def resetReq_def Let_def split: prod.splits)
qed

section \<open>The registry\<close>

lemma indexOf_from_absent: "x \<notin> set xs \<Longrightarrow> indexOf_from i xs x = - 1"
  by (induction xs arbitrary: i) auto

lemma splice_minus_one: "splice xs (- 1) 1 = butlast xs"
  by (cases xs rule: rev_cases) (auto simp: splice_def Let_def butlast_conv_take)

lemma findOwner_find:
  "list_all (\<lambda>c. session (h c) \<noteq> None) cs \<Longrightarrow>
   findOwner h cs k = Inr (find (\<lambda>c. map_option (\<lambda>x. userId (user x)) (session (h c)) = Some k) cs)"
  by (induction cs) (auto split: option.splits)

lemma findPlayer_find:
  "list_all (\<lambda>c. session (h c) \<noteq> None) cs \<Longrightarrow>
   findPlayer h cs n = Inr (find (\<lambda>c. map_option (\<lambda>x. playername (user x)) (session (h c)) = Some n) cs)"
  by (induction cs) (auto split: option.splits)

lemma lobby_sessions:
  "list_all (\<lambda>c. session (sockets lobby c) \<noteq> None) (connections lobby)"
  by (simp add: lobby_def live_socket_def)

text \<open>
  C3, as the code has it. \<^verbatim>\<open>Add\<close> pushes the connection whether or not it is
  registered already, so the array grows by one entry each time. Where every registered
  connection has a session, \<^verbatim>\<open>FindByOwnerId\<close> and \<^verbatim>\<open>FindByPlayerName\<close> return
  the first registered connection, in the order of registration, whose user matches,
  and null when none matches.
\<close>

theorem Add_appends_and_Find_returns_first:
  "connections (Add conn s) = connections s @ [conn]
   \<and> sockets (Add conn s) = sockets s
   \<and> (list_all (\<lambda>c. session (sockets s c) \<noteq> None) (connections s) \<longrightarrow>
        FindByOwnerId s ownerId
          = Inr (find (\<lambda>c. map_option (\<lambda>x. userId (user x)) (session (sockets s c)) = Some ownerId)
                   (connections s))
      \<and> FindByPlayerName s targetName
          = Inr (find (\<lambda>c. map_option (\<lambda>x. playername (user x)) (session (sockets s c)) = Some targetName)
                   (connections s)))"
  by (simp add: Add_def FindByOwnerId_def FindByPlayerName_def findOwner_find findPlayer_find)

theorem Add_appends_and_Find_returns_first_witness:
  "list_all (\<lambda>c. session (sockets lobby c) \<noteq> None) (connections lobby)
   \<and> connections (Add 1 lobby) = [0, 1, 1]
   \<and> FindByOwnerId lobby 43 = Inr (Some 1)
   \<and> FindByOwnerId lobby 99 = Inr None
   \<and> FindByPlayerName lobby ''Alice'' = Inr (Some 0)"
  using Add_appends_and_Find_returns_first [of 1 lobby 43 "''Alice''"]
        Add_appends_and_Find_returns_first [of 1 lobby 99 "''Alice''"]
        lobby_sessions
  by (simp add: lobby_def live_socket_def alice_def bob_def)

text \<open>
  The claim of C3 as stated fails: adding the registered connection 1 of the scenario
  once more changes the registry, which then holds it twice.
\<close>

theorem Add_not_idempotent_counterexample:
  "connections lobby = [0, 1] \<and> connections (Add 1 lobby) = [0, 1, 1] \<and> Add 1 lobby \<noteq> lobby"
proof -
  have c: "connections lobby = [0, 1]" "connections (Add 1 lobby) = [0, 1, 1]"
    by (simp_all add: Add_def lobby_def)
  then have "connections (Add 1 lobby) \<noteq> connections lobby" by simp
  then have "Add 1 lobby \<noteq> lobby" by metis
  with c show ?thesis by simp
qed

text \<open>
  C10. \<^verbatim>\<open>Remove\<close> of a connection that is not registered splices at index -1: the
  registry loses its last entry, the connection added most recently. On a registry
  that is not empty this changes it; the empty registry stays as it was.
\<close>

theorem Remove_unregistered_drops_last:
  assumes "conn \<notin> set (connections s)"
  shows "connections (Remove conn s) = butlast (connections s)
       \<and> (connections s \<noteq> [] \<longrightarrow>
            connections (Remove conn s) @ [last (connections s)] = connections s
          \<and> connections (Remove conn s) \<noteq> connections s)
       \<and> (connections s = [] \<longrightarrow> Remove conn s = s)"
proof -
  have r: "connections (Remove conn s) = butlast (connections s)"
    using assms by (simp add: Remove_def indexOf_def indexOf_from_absent splice_minus_one)
  have "Remove conn s = s" if "connections s = []"
    using that by (simp add: Remove_def indexOf_def splice_def)
  moreover have "butlast xs \<noteq> xs" if "xs \<noteq> []" for xs :: "conn_ref list"
    using that by (metis length_butlast diff_less length_greater_0_conv less_numeral_extra(1) nat_neq_iff)
  ultimately show ?thesis using r by auto
qed

theorem Remove_unregistered_drops_last_witness:
  "5 \<notin> set (connections lobby) \<and> connections lobby = [0, 1]
   \<and> connections (Remove 5 lobby) = [0]
   \<and> connections (Remove 5 (lobby\<lparr>connections := []\<rparr>)) = []"
  using Remove_unregistered_drops_last [of 5 lobby]
        Remove_unregistered_drops_last [of 5 "lobby\<lparr>connections := []\<rparr>"]
  by (simp add: lobby_def)

section \<open>Host packets that name an unknown user\<close>

lemma unknown_target_faults:
  assumes "FindByOwnerId s uid = Inr None"
  shows "onItemUsing uid itemId conn s = Inl TypeError"
    and "onTeamChangingRequest A uid newTeam conn s = Inl TypeError"
    and "onHostSetUserInventory items uid conn s = Inl TypeError"
    and "onHostSetUserLoadout uid conn s = Inl TypeError"
    and "onHostSetUserBuyMenu uid conn s = Inl TypeError"
  using assms
  by (simp_all add: onItemUsing_def onTeamChangingRequest_def onHostSetUserInventory_def
        onHostSetUserLoadout_def onHostSetUserBuyMenu_def then_do_def)

text \<open>
  C2, as the code has it. When the registry has no connection for the target user id,
  each of the five host operations faults with a TypeError on reading the session of
  the null connection: none of them returns false. This holds for a requester that
  has a session, through the dispatcher too.
\<close>

theorem host_operations_fault_on_unknown_target:
  assumes "FindByOwnerId s uid = Inr None"
  shows "onItemUsing uid itemId conn s = Inl TypeError
       \<and> onTeamChangingRequest A uid newTeam conn s = Inl TypeError
       \<and> onHostSetUserInventory items uid conn s = Inl TypeError
       \<and> onHostSetUserLoadout uid conn s = Inl TypeError
       \<and> onHostSetUserBuyMenu uid conn s = Inl TypeError
       \<and> (session (sockets s conn) \<noteq> None \<longrightarrow>
            onHostPacket A items (ItemUsing uid itemId) conn s = Inl TypeError
          \<and> onHostPacket A items (TeamChanging uid newTeam) conn s = Inl TypeError
          \<and> onHostPacket A items (SetInventory uid) conn s = Inl TypeError
          \<and> onHostPacket A items (SetLoadout uid) conn s = Inl TypeError
          \<and> onHostPacket A items (SetBuyMenu uid) conn s = Inl TypeError)"
  using unknown_target_faults [OF assms]
  by (auto simp: onHostPacket_def)

theorem host_operations_fault_on_unknown_target_witness:
  "FindByOwnerId lobby 99 = Inr None
   \<and> session (sockets lobby 0) \<noteq> None
   \<and> onItemUsing 99 7 0 lobby = Inl TypeError
   \<and> onTeamChangingRequest idle 99 1 0 lobby = Inl TypeError
   \<and> onHostSetUserInventory (\<lambda>uid. Some []) 99 0 lobby = Inl TypeError
   \<and> onHostSetUserLoadout 99 0 lobby = Inl TypeError
   \<and> onHostSetUserBuyMenu 99 0 lobby = Inl TypeError
   \<and> onHostPacket idle (\<lambda>uid. Some []) (ItemUsing 99 7) 0 lobby = Inl TypeError"
proof -
  have f: "FindByOwnerId lobby 99 = Inr None"
    by (simp add: FindByOwnerId_def lobby_def live_socket_def alice_def bob_def)
  have s: "session (sockets lobby 0) \<noteq> None"
    by (simp add: lobby_def live_socket_def)
  from host_operations_fault_on_unknown_target [OF f, of 7 0 idle 1 "\<lambda>uid. Some []"] f s
  show ?thesis by simp
qed

section \<open>Failure paths of the handlers\<close>

lemma SendUserDialogBox_effect:
  "\<exists>c'. send (OutChatPacket_systemMessage msg DialogBox) (sockets s conn) = Inr c'
       \<and> SendUserDialogBox conn msg s = Inr (s\<lparr>sockets := (sockets s)(conn := c')\<rparr>)
       \<and> session c' = session (sockets s conn)
       \<and> (if destroyed (sockets s conn) then c' = sockets s conn
           else (\<exists>b. wire c' = wire (sockets s conn) @ [Frame b (OutChatPacket_systemMessage msg DialogBox)]))"
  using send_effect [of "OutChatPacket_systemMessage msg DialogBox" "sockets s conn"]
  by (auto simp: SendUserDialogBox_def conn_send_def then_do_def)

text \<open>
  C4. When \<^verbatim>\<open>Login\<close> answers 0 the dialog is the bad-username one, when it answers
  -1 the bad-password one, and when it answers another id but the user record is null
  the invalid-user-info one. In each case the handler returns false and the state is the
  old one but for that one \<^verbatim>\<open>send\<close> on the connection: its session is the one it
  had, and the registry is the one before. On a live socket the dialog is the one frame
  added to the wire.
\<close>

theorem onLoginPacket_failures:
  assumes "msg = (if loggedUserId answers = 0 then GAME_LOGIN_BAD_USERNAME
                  else if loggedUserId answers = - 1 then GAME_LOGIN_BAD_PASSWORD
                  else GAME_LOGIN_INVALID_USERINFO)"
      and "loggedUserId answers = 0 \<or> loggedUserId answers = - 1 \<or> fetchedUser answers = None"
  shows "\<exists>c'. send (OutChatPacket_systemMessage msg DialogBox) (sockets s connection) = Inr c'
       \<and> onLoginPacket A answers connection holepunchPort s
            = Inr (False, s\<lparr>sockets := (sockets s)(connection := c')\<rparr>)
       \<and> session c' = session (sockets s connection)
       \<and> connections (s\<lparr>sockets := (sockets s)(connection := c')\<rparr>) = connections s
       \<and> (if destroyed (sockets s connection) then c' = sockets s connection
           else (\<exists>b. wire c' = wire (sockets s connection)
                        @ [Frame b (OutChatPacket_systemMessage msg DialogBox)]))"
proof -
  from SendUserDialogBox_effect [of msg s connection] obtain c' where
    c': "send (OutChatPacket_systemMessage msg DialogBox) (sockets s connection) = Inr c'"
        "SendUserDialogBox connection msg s = Inr (s\<lparr>sockets := (sockets s)(connection := c')\<rparr>)"
        "session c' = session (sockets s connection)"
        "if destroyed (sockets s connection) then c' = sockets s connection
         else (\<exists>b. wire c' = wire (sockets s connection)
                      @ [Frame b (OutChatPacket_systemMessage msg DialogBox)])"
    by blast
  have "onLoginPacket A answers connection holepunchPort s
          = then_do (SendUserDialogBox connection msg s) (\<lambda>s'. Inr (False, s'))"
    using assms by (auto simp: onLoginPacket_def)
  with c' show ?thesis by (auto simp: then_do_def)
qed

lemma fresh_send_dialog:
  "send (OutChatPacket_systemMessage msg DialogBox) (ExtendedSocket_from False)
     = Inr ((ExtendedSocket_from False)
              \<lparr>seq := NaN, wire := [Frame 0 (OutChatPacket_systemMessage msg DialogBox)]\<rparr>)"
  by (simp add: send_def getNextSeq_def ExtendedSocket_from_def MAX_SEQUENCE_def)

theorem onLoginPacket_failures_witness:
  "onLoginPacket idle (login_answers 0 None) 2 30002 lobby
     = Inr (False, lobby\<lparr>sockets := (sockets lobby)
              (2 := (ExtendedSocket_from False)
                 \<lparr>seq := NaN, wire := [Frame 0 (OutChatPacket_systemMessage GAME_LOGIN_BAD_USERNAME DialogBox)]\<rparr>)\<rparr>)
   \<and> onLoginPacket idle (login_answers (- 1) None) 2 30002 lobby
     = Inr (False, lobby\<lparr>sockets := (sockets lobby)
              (2 := (ExtendedSocket_from False)
                 \<lparr>seq := NaN, wire := [Frame 0 (OutChatPacket_systemMessage GAME_LOGIN_BAD_PASSWORD DialogBox)]\<rparr>)\<rparr>)
   \<and> onLoginPacket idle (login_answers 44 None) 2 30002 lobby
     = Inr (False, lobby\<lparr>sockets := (sockets lobby)
              (2 := (ExtendedSocket_from False)
                 \<lparr>seq := NaN, wire := [Frame 0 (OutChatPacket_systemMessage GAME_LOGIN_INVALID_USERINFO DialogBox)]\<rparr>)\<rparr>)"
proof -
  have s2: "sockets lobby 2 = ExtendedSocket_from False"
    by (simp add: lobby_def)
  have a: "loggedUserId (login_answers 0 None) = 0"
          "loggedUserId (login_answers (- 1) None) = - 1"
          "loggedUserId (login_answers 44 None) = 44"
          "fetchedUser (login_answers 44 None) = None"
    by (simp_all add: login_answers_def)
  from onLoginPacket_failures [of GAME_LOGIN_BAD_USERNAME "login_answers 0 None" lobby 2 idle 30002]
       onLoginPacket_failures [of GAME_LOGIN_BAD_PASSWORD "login_answers (- 1) None" lobby 2 idle 30002]
       onLoginPacket_failures [of GAME_LOGIN_INVALID_USERINFO "login_answers 44 None" lobby 2 idle 30002]
  show ?thesis
    by (simp add: a s2 fresh_send_dialog)
qed

text \<open>
  C5. A join request that names an existing room with a free slot and a password, with
  a password other than the room's: the handler sends the bad-password dialog and
  returns false. The state is the old one but for that one \<^verbatim>\<open>send\<close> on the
  requester's connection: its session, and so its current room, is the one it had, and
  every room is as it was.
\<close>

theorem join_wrong_password:
  assumes "session (sockets s sourceConn) = Some sess"
      and "currentChannel sess = Some channel"
      and "getRoomById s channel (joinReq_roomId joinReq) = Some r"
      and "hasFreeSlots (roomHeap s r)"
      and "roomPassword (settings (roomHeap s r)) \<noteq> []"
      and "joinReq_roomPassword joinReq \<noteq> roomPassword (settings (roomHeap s r))"
  shows "\<exists>c'. send (OutChatPacket_systemMessage GAME_ROOM_JOIN_FAILED_BAD_PASSWORD DialogBox)
                 (sockets s sourceConn) = Inr c'
       \<and> onJoinRoomRequest A joinReq sourceConn s
            = Inr (False, s\<lparr>sockets := (sockets s)(sourceConn := c')\<rparr>)
       \<and> session c' = Some sess
       \<and> roomHeap (s\<lparr>sockets := (sockets s)(sourceConn := c')\<rparr>) = roomHeap s
       \<and> (if destroyed (sockets s sourceConn) then c' = sockets s sourceConn
           else (\<exists>b. wire c' = wire (sockets s sourceConn)
                        @ [Frame b (OutChatPacket_systemMessage GAME_ROOM_JOIN_FAILED_BAD_PASSWORD DialogBox)]))"
proof -
  from SendUserDialogBox_effect [of GAME_ROOM_JOIN_FAILED_BAD_PASSWORD s sourceConn] obtain c' where
    c': "send (OutChatPacket_systemMessage GAME_ROOM_JOIN_FAILED_BAD_PASSWORD DialogBox) (sockets s sourceConn) = Inr c'"
        "SendUserDialogBox sourceConn GAME_ROOM_JOIN_FAILED_BAD_PASSWORD s
           = Inr (s\<lparr>sockets := (sockets s)(sourceConn := c')\<rparr>)"
        "session c' = session (sockets s sourceConn)"
        "if destroyed (sockets s sourceConn) then c' = sockets s sourceConn
         else (\<exists>b. wire c' = wire (sockets s sourceConn)
                      @ [Frame b (OutChatPacket_systemMessage GAME_ROOM_JOIN_FAILED_BAD_PASSWORD DialogBox)])"
    by blast
  have "onJoinRoomRequest A joinReq sourceConn s
          = then_do (SendUserDialogBox sourceConn GAME_ROOM_JOIN_FAILED_BAD_PASSWORD s) (\<lambda>s'. Inr (False, s'))"
    using assms by (simp add: onJoinRoomRequest_def IsPasswordProtected_def ComparePassword_def)
  with c' assms(1) show ?thesis by (auto simp: then_do_def)
qed

lemma bob_send_dialog:
  "send (OutChatPacket_systemMessage msg DialogBox) (sockets lobby 1)
     = Inr ((sockets lobby 1)
              \<lparr>seq := Num 1, wire := [Frame 0 (OutChatPacket_systemMessage msg DialogBox)]\<rparr>)"
  by (simp add: send_def getNextSeq_def lobby_def live_socket_def resetReq_def ExtendedSocket_from_def
        MAX_SEQUENCE_def MIN_SEQUENCE_def)

theorem join_wrong_password_witness:
  "onJoinRoomRequest idle \<lparr> joinReq_roomId = 1, joinReq_roomPassword = ''x'' \<rparr> 1 lobby
     = Inr (False, lobby\<lparr>sockets := (sockets lobby)
              (1 := (sockets lobby 1)
                 \<lparr>seq := Num 1,
                  wire := [Frame 0 (OutChatPacket_systemMessage GAME_ROOM_JOIN_FAILED_BAD_PASSWORD DialogBox)]\<rparr>)\<rparr>)
   \<and> session (sockets lobby 1) = Some \<lparr> user = bob, currentChannel = Some 0, currentRoom = None \<rparr>
   \<and> roomPassword (settings (roomHeap lobby 0)) = ''secret''"
proof -
  have h: "session (sockets lobby 1) = Some \<lparr> user = bob, currentChannel = Some 0, currentRoom = None \<rparr>"
          "currentChannel \<lparr> user = bob, currentChannel = Some 0, currentRoom = None \<rparr> = Some 0"
          "getRoomById lobby 0 (joinReq_roomId \<lparr> joinReq_roomId = 1, joinReq_roomPassword = ''x'' \<rparr>) = Some 0"
          "hasFreeSlots (roomHeap lobby 0)"
          "roomPassword (settings (roomHeap lobby 0)) \<noteq> []"
          "joinReq_roomPassword \<lparr> joinReq_roomId = 1, joinReq_roomPassword = ''x'' \<rparr>
             \<noteq> roomPassword (settings (roomHeap lobby 0))"
    by (simp_all add: lobby_def live_socket_def getRoomById_def room1_def hasFreeSlots_def)
  have p: "roomPassword (settings (roomHeap lobby 0)) = ''secret''"
    by (simp add: lobby_def room1_def)
  from join_wrong_password [OF h, of idle] obtain c' where
    c: "send (OutChatPacket_systemMessage GAME_ROOM_JOIN_FAILED_BAD_PASSWORD DialogBox) (sockets lobby 1) = Inr c'"
       "onJoinRoomRequest idle \<lparr> joinReq_roomId = 1, joinReq_roomPassword = ''x'' \<rparr> 1 lobby
          = Inr (False, lobby\<lparr>sockets := (sockets lobby)(1 := c')\<rparr>)"
    by blast
  from c(1) bob_send_dialog [of GAME_ROOM_JOIN_FAILED_BAD_PASSWORD]
  have "c' = (sockets lobby 1)
          \<lparr>seq := Num 1,
           wire := [Frame 0 (OutChatPacket_systemMessage GAME_ROOM_JOIN_FAILED_BAD_PASSWORD DialogBox)]\<rparr>"
    by simp
  with c(2) h(1) p show ?thesis by simp
qed





section \<open>The probe check of the entry point\<close>

text \<open>
  C9. Checking the same probe twice and reading it twice gives the result and the probe
  state of one check followed by one read: the check that completes last overwrites the
  aliveness the other one stored, and reading the probe changes nothing. In particular,
  when both pings have the same outcome, the double check is the single check with that
  outcome.
\<close>

theorem checkServices_is_single_check:
  "checkServices ping1 ping2 p = checkServices_once ping2 p
   \<and> checkServices ping ping p = checkServices_once ping p
   \<and> fst (checkServices ping1 ping2 p) = isAlive (snd (checkServices ping1 ping2 p))
   \<and> host (snd (checkServices ping1 ping2 p)) = host p"
  by (simp add: checkServices_def checkServices_once_def checkNow_def isAlive_def)

section \<open>UsersService.get behind its cache and the probe\<close>

lemma lru_get_miss_absent:
  assumes "fst (lru_get t k c) = None"
  shows "find (\<lambda>e. fst e = k) (lru_entries (snd (lru_get t k c))) = None"
proof (cases "find (\<lambda>e. fst e = k) (lru_entries c)")
  case None
  then show ?thesis by (simp add: lru_get_def)
next
  case (Some e)
  with assms have "isStale c t e"
    by (simp add: lru_get_def split: if_splits)
  with Some show ?thesis
    by (simp add: lru_get_def find_None_iff)
qed

lemma lru_get_absent:
  assumes "find (\<lambda>e. fst e = k) (lru_entries c) = None"
  shows "lru_get t k c = (None, c)"
  using assms by (simp add: lru_get_def)

lemma get_miss_not_alive:
  assumes "fst (lru_get (now env) uid (userCache s)) = None" and "\<not> isAlive (probe s)"
  shows "UsersService_get env uid s = (Inr None, s\<lparr>userCache := snd (lru_get (now env) uid (userCache s))\<rparr>)"
  using assms by (cases "lru_get (now env) uid (userCache s)") (simp add: UsersService_get_def)

lemma get_miss_alive:
  assumes "fst (lru_get (now env) uid (userCache s)) = None" and "isAlive (probe s)"
  shows "requests (snd (UsersService_get env uid s)) = requests s @ [uid]"
  using assms
  by (cases "lru_get (now env) uid (userCache s)")
     (simp add: UsersService_get_def Let_def split: HttpAnswer.splits option.splits)

lemma get_absent_not_alive:
  assumes "find (\<lambda>e. fst e = uid) (lru_entries (userCache s)) = None" and "\<not> isAlive (probe s)"
  shows "UsersService_get env uid s = (Inr None, s)"
  using assms by (simp add: UsersService_get_def lru_get_absent)

lemma get_repeatedly_absent:
  assumes "find (\<lambda>e. fst e = uid) (lru_entries (userCache s)) = None" and "\<not> isAlive (probe s)"
  shows "get_repeatedly envs uid s = (replicate (length envs) (Inr None), s)"
  using assms by (induction envs) (simp_all add: get_absent_not_alive)

lemma get_repeatedly_miss:
  assumes "fst (lru_get (now env) uid (userCache s)) = None" and "\<not> isAlive (probe s)"
  shows "fst (get_repeatedly (env # envs) uid s) = replicate (Suc (length envs)) (Inr None)"
    and "requests (snd (get_repeatedly (env # envs) uid s)) = requests s"
    and "probe (snd (get_repeatedly (env # envs) uid s)) = probe s"
proof -
  let ?s1 = "s\<lparr>userCache := snd (lru_get (now env) uid (userCache s))\<rparr>"
  have 1: "UsersService_get env uid s = (Inr None, ?s1)"
    using assms by (rule get_miss_not_alive)
  have "find (\<lambda>e. fst e = uid) (lru_entries (userCache ?s1)) = None"
    using lru_get_miss_absent [OF assms(1)] by simp
  moreover have "\<not> isAlive (probe ?s1)" using assms(2) by simp
  ultimately have 2: "get_repeatedly envs uid ?s1 = (replicate (length envs) (Inr None), ?s1)"
    by (rule get_repeatedly_absent)
  show "fst (get_repeatedly (env # envs) uid s) = replicate (Suc (length envs)) (Inr None)"
    and "requests (snd (get_repeatedly (env # envs) uid s)) = requests s"
    and "probe (snd (get_repeatedly (env # envs) uid s)) = probe s"
    by (simp_all add: 1 2)
qed

lemma get_hit:
  assumes "fst (lru_get (now env) uid (userCache s)) = Some u"
  shows "fst (UsersService_get env uid (s\<lparr>probe := p\<rparr>)) = Inr (Some u)"
    and "requests (snd (UsersService_get env uid (s\<lparr>probe := p\<rparr>))) = requests s"
    and "probe (snd (UsersService_get env uid (s\<lparr>probe := p\<rparr>))) = p"
  using assms by (cases "lru_get (now env) uid (userCache s)"; simp add: UsersService_get_def)+

lemma userCache_ttl:
  "fst (lru_get t' k (lru_set t k v userCache_new)) = (if t' - t > 15000 then None else Some v)"
  by (simp add: lru_get_def lru_set_def userCache_new_def isStale_def)

text \<open>
  C8. While the cache gives nothing for a user id and the probe is not alive,
  \<^verbatim>\<open>get\<close> returns null, issues no request and leaves the probe as it is, and so does
  every further call, whatever the surroundings of each, for as long as the probe stays
  so; with the probe alive the same call issues the request. When the cache gives a
  user, \<^verbatim>\<open>get\<close> returns it and issues no request whatever the probe says. The
  cache keeps at most 100 entries, and gives an entry back for 15000 milliseconds
  after it was stored.
\<close>

theorem get_short_circuits_while_not_alive:
  "(fst (lru_get (now env) uid (userCache s)) = None \<and> \<not> isAlive (probe s) \<longrightarrow>
      fst (UsersService_get env uid s) = Inr None
    \<and> requests (snd (UsersService_get env uid s)) = requests s
    \<and> probe (snd (UsersService_get env uid s)) = probe s
    \<and> fst (get_repeatedly (env # envs) uid s) = replicate (Suc (length envs)) (Inr None)
    \<and> requests (snd (get_repeatedly (env # envs) uid s)) = requests s
    \<and> probe (snd (get_repeatedly (env # envs) uid s)) = probe s)
   \<and> (fst (lru_get (now env) uid (userCache s)) = None \<and> isAlive (probe s) \<longrightarrow>
      requests (snd (UsersService_get env uid s)) = requests s @ [uid])
   \<and> (fst (lru_get (now env) uid (userCache s)) = Some u \<longrightarrow>
      fst (UsersService_get env uid (s\<lparr>probe := p\<rparr>)) = Inr (Some u)
    \<and> requests (snd (UsersService_get env uid (s\<lparr>probe := p\<rparr>))) = requests s
    \<and> probe (snd (UsersService_get env uid (s\<lparr>probe := p\<rparr>))) = p)
   \<and> fst (lru_get t' k (lru_set t k v userCache_new)) = (if t' - t > 15000 then None else Some v)
   \<and> length (lru_entries (lru_set t k v c)) \<le> lru_max c
   \<and> lru_max (lru_set t k v c) = lru_max c
   \<and> lru_max userCache_new = 100"
proof -
  have "fst (UsersService_get env uid s) = Inr None
      \<and> requests (snd (UsersService_get env uid s)) = requests s
      \<and> probe (snd (UsersService_get env uid s)) = probe s"
    if "fst (lru_get (now env) uid (userCache s)) = None" and "\<not> isAlive (probe s)"
    using get_miss_not_alive [OF that] by simp
  moreover have "length (lru_entries (lru_set t k v c)) \<le> lru_max c"
    and "lru_max (lru_set t k v c) = lru_max c"
    and "lru_max userCache_new = 100"
    by (simp_all add: lru_set_def userCache_new_def)
  ultimately show ?thesis
    using get_repeatedly_miss [of env uid s envs] get_miss_alive [of env uid s]
          get_hit [of env uid s u p] userCache_ttl [of t' k t v]
    by blast
qed

theorem get_short_circuits_while_not_alive_witness:
  "fst (lru_get (now at_1000) 99 (userCache web_down)) = None
   \<and> \<not> isAlive (probe web_down)
   \<and> UsersService_get at_1000 99 web_down = (Inr None, web_down)
   \<and> fst (get_repeatedly [at_1000, at_1000, at_1000] 99 web_down) = [Inr None, Inr None, Inr None]
   \<and> requests (snd (get_repeatedly [at_1000, at_1000, at_1000] 99 web_down)) = []
   \<and> requests (snd (UsersService_get at_1000 99 (web_down\<lparr>probe := \<lparr> alive = True, host = ''userservice'' \<rparr>\<rparr>))) = [99]
   \<and> fst (lru_get (now at_1000) 42 (userCache web_down)) = Some alice
   \<and> fst (UsersService_get at_1000 42 web_down) = Inr (Some alice)
   \<and> requests (snd (UsersService_get at_1000 42 web_down)) = []
   \<and> fst (lru_get 15001 42 (lru_set 0 42 alice userCache_new)) = None"
proof -
  have miss: "fst (lru_get (now at_1000) 99 (userCache web_down)) = None"
    by (simp add: lru_get_def lru_set_def web_down_def at_1000_def userCache_new_def)
  have hit: "fst (lru_get (now at_1000) 42 (userCache web_down)) = Some alice"
    by (simp add: lru_get_def lru_set_def web_down_def at_1000_def userCache_new_def isStale_def)
  have down: "\<not> isAlive (probe web_down)" "requests web_down = []"
    by (simp_all add: isAlive_def web_down_def)
  have same: "UsersService_get at_1000 99 web_down = (Inr None, web_down)"
    by (simp add: UsersService_get_def lru_get_def lru_set_def web_down_def at_1000_def
          userCache_new_def isAlive_def)
  have up: "isAlive (probe (web_down\<lparr>probe := \<lparr> alive = True, host = ''userservice'' \<rparr>\<rparr>))"
    by (simp add: isAlive_def)
  have self: "web_down\<lparr>probe := probe web_down\<rparr> = web_down"
    by simp
  from get_short_circuits_while_not_alive
         [of at_1000 99 web_down "[at_1000, at_1000]" alice "probe web_down" 15001 42 0 alice userCache_new]
       get_short_circuits_while_not_alive
         [of at_1000 99 "web_down\<lparr>probe := \<lparr> alive = True, host = ''userservice'' \<rparr>\<rparr>"
             "[]" alice "probe web_down" 15001 42 0 alice userCache_new]
       get_short_circuits_while_not_alive
         [of at_1000 42 web_down "[]" alice "probe web_down" 15001 42 0 alice userCache_new]
       miss hit down same up
  show ?thesis by (simp add: self)
qed

section \<open>PacketString: encoding and decoding\<close>

lemma decode_two_bytes:
  assumes "2 \<le> a" "a < 32" "d < 64"
  shows "utf8_decode ((192 + a) # (128 + d) # bs) = (a * 64 + d) # utf8_decode bs"
  using assms by (simp add: is_continuation_def)

lemma decode_three_bytes:
  assumes "a < 16" "e < 64" "d < 64" "a = 0 \<longrightarrow> 32 \<le> e" "a = 13 \<longrightarrow> e \<le> 31"
  shows "utf8_decode ((224 + a) # (128 + e) # (128 + d) # bs) = (a * 4096 + e * 64 + d) # utf8_decode bs"
  using assms by (simp add: is_continuation_def second_byte_ok_def)

lemma decode_four_bytes:
  assumes "g \<le> 4" "f < 64" "e < 64" "d < 64" "g = 0 \<longrightarrow> 16 \<le> f" "g = 4 \<longrightarrow> f \<le> 15"
  shows "utf8_decode ((240 + g) # (128 + f) # (128 + e) # (128 + d) # bs)
           = (g * 262144 + f * 4096 + e * 64 + d) # utf8_decode bs"
  using assms by (simp add: is_continuation_def second_byte_ok_def)

lemma div_4096: "(c::nat) div 4096 = c div 64 div 64"
  by (simp add: div_mult2_eq [symmetric])

lemma div_262144: "(c::nat) div 262144 = c div 64 div 64 div 64"
  by (simp add: div_mult2_eq [symmetric])

lemma encode_two_bytes:
  assumes "128 \<le> c" "c < 2048"
  obtains a d where "utf8_of_scalar c = [192 + a, 128 + d]" "c = a * 64 + d"
    "2 \<le> a" "a < 32" "d < 64"
proof -
  define d where "d = c mod 64"
  define a where "a = c div 64"
  have c: "c = a * 64 + d" and d: "d < 64"
    by (simp_all add: a_def d_def)
  from c d assms have "2 \<le> a" "a < 32" by linarith+
  moreover from assms have "utf8_of_scalar c = [192 + a, 128 + d]"
    by (simp add: utf8_of_scalar_def a_def d_def)
  ultimately show thesis using c d that [of a d] by blast
qed

lemma encode_three_bytes:
  assumes "2048 \<le> c" "c < 65536"
  obtains a e d where "utf8_of_scalar c = [224 + a, 128 + e, 128 + d]"
    "c = a * 4096 + e * 64 + d" "a < 16" "e < 64" "d < 64"
proof -
  define d where "d = c mod 64"
  define q where "q = c div 64"
  define e where "e = q mod 64"
  define a where "a = q div 64"
  have c: "c = q * 64 + d" and d: "d < 64" and q: "q = a * 64 + e" and e: "e < 64"
    by (simp_all add: a_def d_def e_def q_def)
  from c q have c': "c = a * 4096 + e * 64 + d" by linarith
  with d e assms have a: "a < 16" by linarith
  from assms have "utf8_of_scalar c = [224 + a, 128 + e, 128 + d]"
    by (simp add: utf8_of_scalar_def div_4096 a_def d_def e_def q_def)
  then show thesis using c' a e d that [of a e d] by blast
qed

lemma encode_four_bytes:
  assumes "65536 \<le> c" "c < 1114112"
  obtains g f e d where "utf8_of_scalar c = [240 + g, 128 + f, 128 + e, 128 + d]"
    "c = g * 262144 + f * 4096 + e * 64 + d" "g \<le> 4" "f < 64" "e < 64" "d < 64"
proof -
  define d where "d = c mod 64"
  define q where "q = c div 64"
  define e where "e = q mod 64"
  define a where "a = q div 64"
  define f where "f = a mod 64"
  define g where "g = a div 64"
  have c: "c = q * 64 + d" and d: "d < 64" and q: "q = a * 64 + e" and e: "e < 64"
    and a: "a = g * 64 + f" and f: "f < 64"
    by (simp_all add: a_def d_def e_def q_def f_def g_def)
  from c q a have c': "c = g * 262144 + f * 4096 + e * 64 + d" by linarith
  with d e f assms have g: "g \<le> 4" by linarith
  from assms have "utf8_of_scalar c = [240 + g, 128 + f, 128 + e, 128 + d]"
    by (simp add: utf8_of_scalar_def div_4096 div_262144 a_def d_def e_def q_def f_def g_def)
  then show thesis using c' g f e d that [of g f e d] by blast
qed

lemma decode_encoded_scalar:
  assumes "c < 55296 \<or> (57344 \<le> c \<and> c < 1114112)"
  shows "utf8_decode (utf8_of_scalar c @ bs) = c # utf8_decode bs"
proof -
  consider "c < 128" | "128 \<le> c" "c < 2048" | "2048 \<le> c" "c < 65536" | "65536 \<le> c"
    by linarith
  then show ?thesis
  proof cases
    case 1
    then show ?thesis by (simp add: utf8_of_scalar_def)
  next
    case 2
    then obtain a d where "utf8_of_scalar c = [192 + a, 128 + d]" "c = a * 64 + d"
      "2 \<le> a" "a < 32" "d < 64"
      by (rule encode_two_bytes)
    then show ?thesis by (simp add: decode_two_bytes del: utf8_decode.simps)
  next
    case 3
    then obtain a e d where *: "utf8_of_scalar c = [224 + a, 128 + e, 128 + d]"
      "c = a * 4096 + e * 64 + d" "a < 16" "e < 64" "d < 64"
      by (rule encode_three_bytes)
    with 3 have "a = 0 \<longrightarrow> 32 \<le> e" by auto
    moreover from * assms have "a = 13 \<longrightarrow> e \<le> 31" by auto
    ultimately show ?thesis using * by (simp add: decode_three_bytes del: utf8_decode.simps)
  next
    case 4
    with assms have "c < 1114112" by simp
    with 4 obtain g f e d where *: "utf8_of_scalar c = [240 + g, 128 + f, 128 + e, 128 + d]"
      "c = g * 262144 + f * 4096 + e * 64 + d" "g \<le> 4" "f < 64" "e < 64" "d < 64"
      by (rule encode_four_bytes)
    with 4 have "g = 0 \<longrightarrow> 16 \<le> f" by auto
    moreover from * \<open>c < 1114112\<close> have "g = 4 \<longrightarrow> f \<le> 15" by auto
    ultimately show ?thesis using * by (simp add: decode_four_bytes del: utf8_decode.simps)
  qed
qed

lemma decode_encoded_scalars:
  assumes "list_all (\<lambda>c. c < 55296 \<or> (57344 \<le> c \<and> c < 1114112)) cs"
  shows "utf8_decode (concat (map utf8_of_scalar cs)) = cs"
  using assms
  by (induction cs) (simp_all add: decode_encoded_scalar del: utf8_decode.simps, simp)

lemma surrogate_pair:
  assumes "is_high_surrogate u" "is_low_surrogate l"
  shows "utf16_of_scalar (65536 + (u - 55296) * 1024 + (l - 56320)) = [u, l]"
    and "65536 \<le> 65536 + (u - 55296) * 1024 + (l - 56320)"
    and "65536 + (u - 55296) * 1024 + (l - 56320) < 1114112"
proof -
  define a where "a = u - 55296"
  define b where "b = l - 56320"
  from assms have u: "u = 55296 + a" and a: "a < 1024" and l: "l = 56320 + b" and b: "b < 1024"
    unfolding a_def b_def is_high_surrogate_def is_low_surrogate_def by linarith+
  have c: "65536 + (u - 55296) * 1024 + (l - 56320) = 65536 + (a * 1024 + b)"
    by (simp add: a_def b_def)
  have "(a * 1024 + b) div 1024 = a" "(a * 1024 + b) mod 1024 = b"
    using b by simp_all
  then show "utf16_of_scalar (65536 + (u - 55296) * 1024 + (l - 56320)) = [u, l]"
    unfolding c by (simp add: utf16_of_scalar_def u l)
  show "65536 \<le> 65536 + (u - 55296) * 1024 + (l - 56320)" by simp
  from a b show "65536 + (u - 55296) * 1024 + (l - 56320) < 1114112"
    unfolding c by linarith
qed

lemma well_formed_scalar_values:
  assumes "well_formed s"
  shows "list_all (\<lambda>c. c < 55296 \<or> (57344 \<le> c \<and> c < 1114112)) (scalar_values s)
       \<and> concat (map utf16_of_scalar (scalar_values s)) = s"
  using assms
proof (induction s rule: scalar_values.induct)
  case 1
  then show ?case by simp
next
  case (2 u)
  then show ?case
    by (auto simp: utf16_of_scalar_def is_high_surrogate_def is_low_surrogate_def)
next
  case (3 u l us)
  show ?case
  proof (cases "is_high_surrogate u")
    case True
    with "3.prems" have l: "is_low_surrogate l" and us: "well_formed us" by simp_all
    from "3.IH"(1) [OF True l us] surrogate_pair [OF True l] True l
    show ?thesis by simp
  next
    case False
    with "3.prems" have u: "u < 65536" "\<not> is_low_surrogate u" and r: "well_formed (l # us)"
      by simp_all
    from "3.IH"(4) [OF False u(2) r] False u
    show ?thesis
      by (auto simp: utf16_of_scalar_def is_high_surrogate_def is_low_surrogate_def)
  qed
qed

lemma utf8_fitting_all:
  "length (concat (map utf8_of_scalar cs)) \<le> n \<Longrightarrow> utf8_fitting n cs = concat (map utf8_of_scalar cs)"
  by (induction cs arbitrary: n) (simp_all add: Let_def)

lemma toString_encode:
  assumes "well_formed s"
  shows "Buffer_toString (TextEncoder_encode s) = s"
  using well_formed_scalar_values [OF assms]
  by (simp add: Buffer_toString_def TextEncoder_encode_def decode_encoded_scalars)

lemma toBuffer_constructed:
  assumes "n = length (TextEncoder_encode s)" and "n \<le> 255"
  shows "toBuffer \<lparr> str = s, actualStrLen = n, totalLen = n + 1 \<rparr> = Inr (n # TextEncoder_encode s)"
proof (cases "s = []")
  case True
  with assms show ?thesis by (simp add: toBuffer_def TextEncoder_encode_def)
next
  case False
  have fit: "utf8_fitting n (scalar_values s) = TextEncoder_encode s"
    using assms(1) by (simp add: utf8_fitting_all TextEncoder_encode_def)
  have m: "n mod 256 = n"
    using assms(2) by simp
  have len: "length (TextEncoder_encode s) = n"
    using assms(1) by simp
  from False show ?thesis
    by (simp add: toBuffer_def Buffer_write_def fit m len)
qed

lemma scalar_values_valid:
  assumes "list_all (\<lambda>u. u < 65536) s"
  shows "list_all (\<lambda>c. c < 55296 \<or> (57344 \<le> c \<and> c < 1114112)) (scalar_values s)"
  using assms
proof (induction s rule: scalar_values.induct)
  case 1
  then show ?case by simp
next
  case (2 u)
  then show ?case
    by (auto simp: is_high_surrogate_def is_low_surrogate_def)
next
  case (3 u l us)
  show ?case
  proof (cases "is_high_surrogate u")
    case True
    show ?thesis
    proof (cases "is_low_surrogate l")
      case l: True
      from "3.prems" have "list_all (\<lambda>u. u < 65536) us" by simp
      with "3.IH"(1) [OF True l] surrogate_pair(2,3) [OF True l] True l
      show ?thesis by simp
    next
      case l: False
      from "3.prems" have "list_all (\<lambda>u. u < 65536) (l # us)" by simp
      with "3.IH"(2) [OF True l] True l show ?thesis by simp
    qed
  next
    case False
    from "3.prems" have r: "list_all (\<lambda>u. u < 65536) (l # us)" and u: "u < 65536" by simp_all
    show ?thesis
    proof (cases "is_low_surrogate u")
      case True
      with "3.IH"(3) [OF False True r] False show ?thesis by simp
    next
      case u': False
      with "3.IH"(4) [OF False u' r] False u show ?thesis
        by (auto simp: is_high_surrogate_def is_low_surrogate_def)
    qed
  qed
qed

lemma utf16_of_scalar_split:
  assumes "65536 \<le> c" "c < 1114112"
  obtains h l where "utf16_of_scalar c = [h, l]" "is_high_surrogate h" "is_low_surrogate l"
    "65536 + (h - 55296) * 1024 + (l - 56320) = c"
proof -
  define a where "a = (c - 65536) div 1024"
  define b where "b = (c - 65536) mod 1024"
  have c: "c - 65536 = a * 1024 + b" and b: "b < 1024"
    by (simp_all add: a_def b_def)
  with assms have a: "a < 1024" by linarith
  have "utf16_of_scalar c = [55296 + a, 56320 + b]"
    using assms by (simp add: utf16_of_scalar_def a_def b_def)
  moreover have "is_high_surrogate (55296 + a)" "is_low_surrogate (56320 + b)"
    using a b by (simp_all add: is_high_surrogate_def is_low_surrogate_def)
  moreover have "65536 + (55296 + a - 55296) * 1024 + (56320 + b - 56320) = c"
    using c assms by simp
  ultimately show thesis using that [of "55296 + a" "56320 + b"] by blast
qed

lemma scalar_values_utf16:
  assumes "list_all (\<lambda>c. c < 55296 \<or> (57344 \<le> c \<and> c < 1114112)) cs"
  shows "scalar_values (concat (map utf16_of_scalar cs)) = cs"
  using assms
proof (induction cs)
  case Nil
  then show ?case by simp
next
  case (Cons c cs)
  then have IH: "scalar_values (concat (map utf16_of_scalar cs)) = cs"
    and v: "c < 55296 \<or> (57344 \<le> c \<and> c < 1114112)"
    by simp_all
  show ?case
  proof (cases "c < 65536")
    case True
    with v have n: "\<not> is_high_surrogate c" "\<not> is_low_surrogate c"
      by (auto simp: is_high_surrogate_def is_low_surrogate_def)
    from True have u: "utf16_of_scalar c = [c]" by (simp add: utf16_of_scalar_def)
    show ?thesis
    proof (cases "concat (map utf16_of_scalar cs)")
      case Nil
      with IH n u show ?thesis by simp
    next
      case (Cons l us)
      with IH n u show ?thesis by simp
    qed
  next
    case False
    with v have "65536 \<le> c" "c < 1114112" by simp_all
    then obtain h l where "utf16_of_scalar c = [h, l]" "is_high_surrogate h" "is_low_surrogate l"
      "65536 + (h - 55296) * 1024 + (l - 56320) = c"
      by (rule utf16_of_scalar_split)
    with IH show ?thesis by simp
  qed
qed

lemma encode_toString_encode:
  assumes "list_all (\<lambda>u. u < 65536) s"
  shows "Buffer_toString (TextEncoder_encode s) = concat (map utf16_of_scalar (scalar_values s))"
    and "TextEncoder_encode (Buffer_toString (TextEncoder_encode s)) = TextEncoder_encode s"
proof -
  have v: "list_all (\<lambda>c. c < 55296 \<or> (57344 \<le> c \<and> c < 1114112)) (scalar_values s)"
    using assms by (rule scalar_values_valid)
  then show 1: "Buffer_toString (TextEncoder_encode s) = concat (map utf16_of_scalar (scalar_values s))"
    by (simp add: Buffer_toString_def TextEncoder_encode_def decode_encoded_scalars)
  show "TextEncoder_encode (Buffer_toString (TextEncoder_encode s)) = TextEncoder_encode s"
    unfolding 1 using v by (simp add: TextEncoder_encode_def scalar_values_utf16)
qed

text \<open>
  C7, as the code has it. For every string whose UTF-8 encoding has at most 255 bytes,
  the constructor accepts the string, \<^verbatim>\<open>toBuffer\<close> writes the byte count of the
  encoding followed by the encoding, and \<^verbatim>\<open>PacketString.from\<close> of that buffer does
  not throw: it gives the \<^verbatim>\<open>PacketString\<close> of the decoded bytes, with the same
  lengths. When the string is well formed (no surrogate on its own) the decoded string
  is the original one.
\<close>

theorem PacketString_roundtrip:
  assumes "list_all (\<lambda>u. u < 65536) s" and "length (TextEncoder_encode s) \<le> 255"
  shows "new_PacketString s 0
           = Inr \<lparr> str = s, actualStrLen = length (TextEncoder_encode s),
                   totalLen = length (TextEncoder_encode s) + 1 \<rparr>
       \<and> toBuffer \<lparr> str = s, actualStrLen = length (TextEncoder_encode s),
                     totalLen = length (TextEncoder_encode s) + 1 \<rparr>
           = Inr (length (TextEncoder_encode s) # TextEncoder_encode s)
       \<and> PacketString_from (length (TextEncoder_encode s) # TextEncoder_encode s)
           = Inr \<lparr> str = Buffer_toString (TextEncoder_encode s),
                   actualStrLen = length (TextEncoder_encode s),
                   totalLen = length (TextEncoder_encode s) + 1 \<rparr>
       \<and> (well_formed s \<longrightarrow> Buffer_toString (TextEncoder_encode s) = s)"
proof -
  let ?n = "length (TextEncoder_encode s)"
  have "new_PacketString s 0 = Inr \<lparr> str = s, actualStrLen = ?n, totalLen = ?n + 1 \<rparr>"
    by (simp add: new_PacketString_def Let_def)
  moreover have "toBuffer \<lparr> str = s, actualStrLen = ?n, totalLen = ?n + 1 \<rparr>
                   = Inr (?n # TextEncoder_encode s)"
    by (rule toBuffer_constructed [OF refl assms(2)])
  moreover have "PacketString_from (?n # TextEncoder_encode s)
                   = Inr \<lparr> str = Buffer_toString (TextEncoder_encode s), actualStrLen = ?n, totalLen = ?n + 1 \<rparr>"
    using encode_toString_encode(2) [OF assms(1)]
    by (simp add: PacketString_from_def new_PacketString_def Let_def)
  ultimately show ?thesis
    using toString_encode by blast
qed

theorem PacketString_roundtrip_witness:
  "list_all (\<lambda>u::nat. u < 65536) [233, 55357, 56832]
   \<and> well_formed [233, 55357, 56832]
   \<and> TextEncoder_encode [233, 55357, 56832] = [195, 169, 240, 159, 152, 128]
   \<and> new_PacketString [233, 55357, 56832] 0
       = Inr \<lparr> str = [233, 55357, 56832], actualStrLen = 6, totalLen = 7 \<rparr>
   \<and> toBuffer \<lparr> str = [233, 55357, 56832], actualStrLen = 6, totalLen = 7 \<rparr>
       = Inr [6, 195, 169, 240, 159, 152, 128]
   \<and> PacketString_from [6, 195, 169, 240, 159, 152, 128]
       = Inr \<lparr> str = [233, 55357, 56832], actualStrLen = 6, totalLen = 7 \<rparr>"
proof -
  have u: "list_all (\<lambda>u::nat. u < 65536) [233, 55357, 56832]"
    by simp
  have w: "well_formed [233, 55357, 56832]"
    by (simp add: is_high_surrogate_def is_low_surrogate_def)
  have e: "TextEncoder_encode [233, 55357, 56832] = [195, 169, 240, 159, 152, 128]"
    by (simp add: TextEncoder_encode_def utf8_of_scalar_def is_high_surrogate_def is_low_surrogate_def)
  have len: "length (TextEncoder_encode [233, 55357, 56832]) = 6"
    by (simp add: e)
  then have l: "length (TextEncoder_encode [233, 55357, 56832]) \<le> 255"
    by simp
  from PacketString_roundtrip [OF u l] w
  have "new_PacketString [233, 55357, 56832] 0
          = Inr \<lparr> str = [233, 55357, 56832], actualStrLen = 6, totalLen = 6 + 1 \<rparr>"
    and "toBuffer \<lparr> str = [233, 55357, 56832], actualStrLen = 6, totalLen = 6 + 1 \<rparr>
          = Inr (6 # TextEncoder_encode [233, 55357, 56832])"
    and "PacketString_from (6 # TextEncoder_encode [233, 55357, 56832])
          = Inr \<lparr> str = [233, 55357, 56832], actualStrLen = 6, totalLen = 6 + 1 \<rparr>"
    unfolding len by simp_all
  then show ?thesis
    unfolding e using u w by simp
qed

lemma continuation_189: "is_continuation 189"
  by (simp add: is_continuation_def)

lemma second_byte_239_191: "second_byte_ok 239 191"
  by (simp add: second_byte_ok_def)

lemma decode_replacement: "utf8_decode [239, 191, 189] = [65533]"
  by (simp add: continuation_189 second_byte_239_191)

lemma encode_lone_surrogate: "TextEncoder_encode [55296] = [239, 191, 189]"
  by (simp add: TextEncoder_encode_def utf8_of_scalar_def is_high_surrogate_def is_low_surrogate_def)

lemma new_lone_surrogate: "new_PacketString [55296] 0 = Inr \<lparr> str = [55296], actualStrLen = 3, totalLen = 4 \<rparr>"
  by (simp add: new_PacketString_def encode_lone_surrogate)

lemma scalar_lone_surrogate: "scalar_values [55296] = [65533]"
  by (simp add: is_high_surrogate_def)

lemma fitting_replacement: "utf8_fitting (Suc (Suc (Suc 0))) [65533] = [239, 191, 189]"
  by (simp add: utf8_of_scalar_def)

lemma toBuffer_lone_surrogate: "toBuffer \<lparr> str = [55296], actualStrLen = 3, totalLen = 4 \<rparr> = Inr [3, 239, 191, 189]"
proof -
  have "replicate 4 (0::nat) = [0, 0, 0, 0]"
    by (simp add: numeral_Bit0 numeral_Bit1 eval_nat_numeral)
  then show ?thesis
    by (simp add: toBuffer_def Buffer_write_def scalar_lone_surrogate fitting_replacement del: scalar_values.simps utf8_fitting.simps)
qed

lemma toString_replacement: "Buffer_toString [239, 191, 189] = [65533]"
  by (simp add: Buffer_toString_def decode_replacement utf16_of_scalar_def del: utf8_decode.simps)

lemma encode_replacement: "TextEncoder_encode [65533] = [239, 191, 189]"
  by (simp add: TextEncoder_encode_def utf8_of_scalar_def is_high_surrogate_def is_low_surrogate_def)

lemma from_replacement: "PacketString_from [3, 239, 191, 189] = Inr \<lparr> str = [65533], actualStrLen = 3, totalLen = 4 \<rparr>"
  by (simp add: PacketString_from_def toString_replacement new_PacketString_def encode_replacement del: utf8_decode.simps)

text \<open>
  The claim of C7 as stated, for every string, fails: the string made of the single
  high surrogate U+D800 is encoded as the three bytes of U+FFFD, and decoding the
  buffer gives the string U+FFFD, not the original.
\<close>

theorem PacketString_lone_surrogate_counterexample:
  "length (TextEncoder_encode [55296]) \<le> 255
   \<and> new_PacketString [55296] 0 = Inr \<lparr> str = [55296], actualStrLen = 3, totalLen = 4 \<rparr>
   \<and> toBuffer \<lparr> str = [55296], actualStrLen = 3, totalLen = 4 \<rparr> = Inr [3, 239, 191, 189]
   \<and> PacketString_from [3, 239, 191, 189] = Inr \<lparr> str = [65533], actualStrLen = 3, totalLen = 4 \<rparr>
   \<and> str \<lparr> str = [65533], actualStrLen = 3, totalLen = 4 \<rparr> \<noteq> [55296]"
  by (simp add: encode_lone_surrogate new_lone_surrogate toBuffer_lone_surrogate from_replacement)

end
